theory Spec2Isabelle
  imports Main "HOL-Library.Word" "HOL-Library.Stream"
begin

unbundle bit_operations_syntax

section \<open>The i.MX27 PWM driver (drivers/pwm/pwm-imx27.c)\<close>

text \<open>
  The driver talks to the controller through memory-mapped 32-bit registers. Register
  values are \<open>32 word\<close>. The C arithmetic on \<open>unsigned long long\<close> (64 bits) and on
  \<open>unsigned long\<close> (32 bits on ARM, 64 bits on arm64) is done on \<open>nat\<close> with every
  wrap-around and every narrowing conversion written out.
\<close>

type_synonym u32 = "32 word"
type_synonym u64 = "64 word"

subsection \<open>Register map and bit fields\<close>

datatype reg = MX3_PWMCR | MX3_PWMSR | MX3_PWMSAR | MX3_PWMPR | MX3_PWMCNR

definition BIT :: "nat \<Rightarrow> u32" where
  "BIT n = push_bit n 1"

text \<open>\<open>GENMASK(h, l)\<close>: bits \<open>l\<close> to \<open>h\<close> set, with \<open>l \<le> h\<close>.\<close>

definition GENMASK :: "nat \<Rightarrow> nat \<Rightarrow> u32" where
  "GENMASK h l = push_bit l (mask (h + 1 - l))"

definition MX3_PWMCR_STOPEN :: u32 where "MX3_PWMCR_STOPEN = BIT 25"
definition MX3_PWMCR_DOZEN :: u32 where "MX3_PWMCR_DOZEN = BIT 24"
definition MX3_PWMCR_WAITEN :: u32 where "MX3_PWMCR_WAITEN = BIT 23"
definition MX3_PWMCR_DBGEN :: u32 where "MX3_PWMCR_DBGEN = BIT 22"

definition MX3_PWMCR_POUTC :: u32 where "MX3_PWMCR_POUTC = GENMASK 19 18"
definition MX3_PWMCR_POUTC_NORMAL :: u32 where "MX3_PWMCR_POUTC_NORMAL = 0"
definition MX3_PWMCR_POUTC_INVERTED :: u32 where "MX3_PWMCR_POUTC_INVERTED = 1"

definition MX3_PWMCR_CLKSRC :: u32 where "MX3_PWMCR_CLKSRC = GENMASK 17 16"
definition MX3_PWMCR_CLKSRC_IPG_HIGH :: u32 where "MX3_PWMCR_CLKSRC_IPG_HIGH = 2"

definition MX3_PWMCR_PRESCALER :: u32 where "MX3_PWMCR_PRESCALER = GENMASK 15 4"

definition MX3_PWMCR_SWR :: u32 where "MX3_PWMCR_SWR = BIT 3"
definition MX3_PWMCR_EN :: u32 where "MX3_PWMCR_EN = BIT 0"

definition MX3_PWMSR_FIFOAV :: u32 where "MX3_PWMSR_FIFOAV = GENMASK 2 0"
definition MX3_PWMSR_FIFOAV_2WORDS :: u32 where "MX3_PWMSR_FIFOAV_2WORDS = 2"
definition MX3_PWMSR_FIFOAV_4WORDS :: u32 where "MX3_PWMSR_FIFOAV_4WORDS = 4"

definition MX3_PWM_SWR_LOOP :: nat where "MX3_PWM_SWR_LOOP = 5"

text \<open>PWMPR register value of 0xffff has the same effect as 0xfffe.\<close>

definition MX3_PWMPR_MAX :: nat where "MX3_PWMPR_MAX = 0xfffe"

definition NSEC_PER_SEC :: nat where "NSEC_PER_SEC = 1000000000"
definition NSEC_PER_MSEC :: nat where "NSEC_PER_MSEC = 1000000"

text \<open>
  Modelled from the spec: the bit-field macros of \<open>linux/bitfield.h\<close> are not among the
  driver's sources. \<open>__bf_shf\<close> is the position of the lowest set bit of the mask,
  \<open>FIELD_GET\<close> masks and shifts down, \<open>FIELD_PREP\<close> shifts up and masks (a value too
  large for the field loses its high bits).
\<close>

fun bf_shf_from :: "nat \<Rightarrow> nat \<Rightarrow> u32 \<Rightarrow> nat" where
  "bf_shf_from 0 i msk = i"
| "bf_shf_from (Suc k) i msk = (if bit msk i then i else bf_shf_from k (Suc i) msk)"

definition bf_shf :: "u32 \<Rightarrow> nat" where
  "bf_shf msk = bf_shf_from 32 0 msk"

definition FIELD_GET :: "u32 \<Rightarrow> u32 \<Rightarrow> u32" where
  "FIELD_GET msk r = drop_bit (bf_shf msk) (r AND msk)"

definition FIELD_PREP :: "u32 \<Rightarrow> u32 \<Rightarrow> u32" where
  "FIELD_PREP msk v = push_bit (bf_shf msk) v AND msk"

text \<open>The prescaler is stored as N - 1 in a 12-bit field.\<close>

definition MX3_PWMCR_PRESCALER_SET :: "nat \<Rightarrow> u32" where
  "MX3_PWMCR_PRESCALER_SET x = FIELD_PREP MX3_PWMCR_PRESCALER (of_nat (x - 1))"

definition MX3_PWMCR_PRESCALER_GET :: "u32 \<Rightarrow> nat" where
  "MX3_PWMCR_PRESCALER_GET x = unat (FIELD_GET MX3_PWMCR_PRESCALER x) + 1"

subsection \<open>Integer helpers\<close>

text \<open>
  Modelled from the spec: \<open>do_div\<close> and \<open>DIV_ROUND_UP_ULL\<close> (\<open>asm/div64.h\<close>,
  \<open>linux/math.h\<close>) are not among the driver's sources. \<open>do_div(n, base)\<close> divides the
  64-bit \<open>n\<close> by \<open>base\<close> narrowed to 32 bits; \<open>DIV_ROUND_UP_ULL(ll, d)\<close> adds
  \<open>d - 1\<close> in 64-bit arithmetic and divides with \<open>do_div\<close>, which is a division
  rounded up (the spec's "ceiling division"). A zero divisor is undefined in C: every
  caller whose divisor is not a constant tests \<open>div_by_zero\<close> first and stops with
  \<open>Division_by_zero\<close>.
\<close>

definition div_by_zero :: "nat \<Rightarrow> bool" where
  "div_by_zero base = (base mod 2 ^ 32 = 0)"

definition do_div :: "nat \<Rightarrow> nat \<Rightarrow> nat" where
  "do_div n base = n div (base mod 2 ^ 32)"

definition DIV_ROUND_UP_ULL :: "nat \<Rightarrow> nat \<Rightarrow> nat" where
  "DIV_ROUND_UP_ULL ll d = do_div ((ll + d + 2 ^ 64 - 1) mod 2 ^ 64) d"

text \<open>The width of \<open>unsigned long\<close>: 32 bits on ARM, 64 bits on arm64.\<close>

datatype abi = ILP32 | LP64

fun BITS_PER_LONG :: "abi \<Rightarrow> nat" where
  "BITS_PER_LONG ILP32 = 32"
| "BITS_PER_LONG LP64 = 64"

definition to_ulong :: "abi \<Rightarrow> nat \<Rightarrow> nat" where
  "to_ulong a n = n mod 2 ^ BITS_PER_LONG a"

text \<open>An \<open>int\<close> converted to \<open>unsigned long long\<close>.\<close>

definition int_to_u64 :: "int \<Rightarrow> nat" where
  "int_to_u64 i = nat (i mod 2 ^ 64)"

subsection \<open>Driver data and the machine\<close>

datatype pwm_polarity = PWM_POLARITY_NORMAL | PWM_POLARITY_INVERSED

record pwm_state =
  period :: u64
  duty_cycle :: u64
  polarity :: pwm_polarity
  enabled :: bool

datatype error = Errno int | Division_by_zero

text \<open>
  What the driver does to the outside world, in program order. \<open>readl_relaxed\<close> and
  \<open>writel_relaxed\<close> differ from \<open>readl\<close> and \<open>writel\<close> only in memory barriers and
  are logged as the same events. The messages of \<open>dev_warn\<close> are kept without their
  trailing newline.
\<close>

datatype event =
    Readl reg u32
  | Writel reg u32
  | Clk_enable int
  | Clk_disable
  | Usleep_range nat nat
  | Msleep nat
  | Udelay nat
  | Dev_warn string
  | Local_irq_save
  | Local_irq_restore

text \<open>
  \<open>imx_duty_cycle\<close> is \<open>imx->duty_cycle\<close> of \<open>struct pwm_imx27_chip\<close>, the cached
  duty cycle. \<open>mmio\<close> holds the values the coming register reads return, whatever the
  hardware answers; \<open>trace\<close> is the log of events so far.
\<close>

record machine =
  imx_duty_cycle :: u32
  mmio :: "u32 stream"
  trace :: "event list"

text \<open>
  The clock framework: the rate of the "per" clock and the return value of
  \<open>clk_bulk_prepare_enable\<close> (0, or a negative errno).
\<close>

record platform =
  long_abi :: abi
  per_clk_rate :: nat
  clk_enable_ret :: int

definition clk_get_rate :: "platform \<Rightarrow> nat" where
  "clk_get_rate pf = to_ulong (long_abi pf) (per_clk_rate pf)"

definition emit :: "event \<Rightarrow> machine \<Rightarrow> machine" where
  "emit e m = m\<lparr>trace := trace m @ [e]\<rparr>"

definition readl :: "reg \<Rightarrow> machine \<Rightarrow> u32 \<times> machine" where
  "readl r m = (shd (mmio m), emit (Readl r (shd (mmio m))) (m\<lparr>mmio := stl (mmio m)\<rparr>))"

definition writel :: "u32 \<Rightarrow> reg \<Rightarrow> machine \<Rightarrow> machine" where
  "writel v r m = emit (Writel r v) m"

subsection \<open>pwm_imx27_sw_reset\<close>

function sw_reset_poll :: "nat \<Rightarrow> machine \<Rightarrow> u32 \<times> machine" where
  "sw_reset_poll wait_count m =
     (case readl MX3_PWMCR (emit (Usleep_range 200 1000) m) of
        (cr, m') \<Rightarrow>
          if cr AND MX3_PWMCR_SWR \<noteq> 0 \<and> wait_count < MX3_PWM_SWR_LOOP
          then sw_reset_poll (wait_count + 1) m'
          else (cr, m'))"
  by pat_completeness auto
termination
  by (relation "measure (\<lambda>(wait_count, m). MX3_PWM_SWR_LOOP - wait_count)") auto

declare sw_reset_poll.simps [simp del]

definition pwm_imx27_sw_reset :: "machine \<Rightarrow> machine" where
  "pwm_imx27_sw_reset m =
     (case sw_reset_poll 0 (writel MX3_PWMCR_SWR MX3_PWMCR m) of
        (cr, m') \<Rightarrow>
          if cr AND MX3_PWMCR_SWR \<noteq> 0
          then emit (Dev_warn ''software reset timeout'') m'
          else m')"

subsection \<open>pwm_imx27_wait_fifo_slot\<close>

definition pwm_imx27_wait_fifo_slot :: "pwm_state \<Rightarrow> machine \<Rightarrow> machine" where
  "pwm_imx27_wait_fifo_slot pwm m =
     (case readl MX3_PWMSR m of
        (sr, m1) \<Rightarrow>
          let fifoav = FIELD_GET MX3_PWMSR_FIFOAV sr in
          if fifoav = MX3_PWMSR_FIFOAV_4WORDS then
            let period_ms = DIV_ROUND_UP_ULL (unat (period pwm)) NSEC_PER_MSEC mod 2 ^ 32;
                m2 = emit (Msleep period_ms) m1
            in case readl MX3_PWMSR m2 of
                 (sr, m3) \<Rightarrow>
                   if fifoav = FIELD_GET MX3_PWMSR_FIFOAV sr
                   then emit (Dev_warn ''there is no free FIFO slot'') m3
                   else m3
          else m1)"

subsection \<open>pwm_imx27_apply\<close>

text \<open>
  The conversion of the requested period and duty cycle to counter units: the prescaler,
  the value for the period register and the value for the sample register.
\<close>

definition apply_rate_convert :: "abi \<Rightarrow> nat \<Rightarrow> pwm_state \<Rightarrow> nat \<times> nat \<times> nat" where
  "apply_rate_convert a clkrate state =
     (let c = (clkrate * unat (period state)) mod 2 ^ 64;
          c = do_div c NSEC_PER_SEC;
          period_cycles = to_ulong a c;
          prescale = period_cycles div 0x10000 + 1;
          period_cycles = period_cycles div prescale;
          c = (clkrate * unat (duty_cycle state)) mod 2 ^ 64;
          c = do_div c NSEC_PER_SEC;
          duty_cycles = to_ulong a c;
          duty_cycles = duty_cycles div prescale;
          period_cycles = (if period_cycles > 2 then period_cycles - 2 else 0)
      in (prescale, period_cycles, duty_cycles))"

text \<open>
  The period now programmed, in microseconds, from the period register value \<open>pr\<close> and
  the control register value \<open>cr\<close>. \<open>val\<close> is a C \<open>int\<close>.
\<close>

definition apply_period_us :: "abi \<Rightarrow> nat \<Rightarrow> u32 \<Rightarrow> u32 \<Rightarrow> nat" where
  "apply_period_us a clkrate pr cr =
     (let val = sint pr;
          val = (if val \<ge> int MX3_PWMPR_MAX then int MX3_PWMPR_MAX else val);
          tmp = to_ulong a
                  ((NSEC_PER_SEC * int_to_u64 (val + 2) * MX3_PWMCR_PRESCALER_GET cr) mod 2 ^ 64);
          tmp = to_ulong a (DIV_ROUND_UP_ULL tmp clkrate)
      in to_ulong a (DIV_ROUND_UP_ULL tmp 1000))"

text \<open>
  The workaround for erratum ERR051198, between \<open>local_irq_save\<close> and
  \<open>local_irq_restore\<close>: the old sample value may be written ahead of the new one.
\<close>

definition apply_write_sar :: "nat \<Rightarrow> u32 \<Rightarrow> nat \<Rightarrow> nat \<Rightarrow> nat \<Rightarrow> machine \<Rightarrow> machine" where
  "apply_write_sar clkrate cr period_us period_cycles duty_cycles m =
     (let c = do_div ((clkrate * 1500) mod 2 ^ 64) NSEC_PER_SEC;
          m = emit Local_irq_save m
      in case readl MX3_PWMSR m of
           (sr, m) \<Rightarrow>
             let val = FIELD_GET MX3_PWMSR_FIFOAV sr;
                 old = imx_duty_cycle m;
                 m = (if duty_cycles < unat old \<and> cr AND MX3_PWMCR_EN \<noteq> 0 then
                        if period_us < 2 then
                          writel old MX3_PWMSAR
                            (writel old MX3_PWMSAR (emit (Udelay (3 * period_us)) m))
                        else if val < MX3_PWMSR_FIFOAV_2WORDS then
                          case readl MX3_PWMCNR m of
                            (cnr, m) \<Rightarrow>
                              let val = sint cnr in
                              if ((int_to_u64 val + c) mod 2 ^ 64 \<ge> duty_cycles
                                    \<and> unat cnr < unat old)
                                 \<or> (int_to_u64 val + c) mod 2 ^ 64 \<ge> period_cycles
                              then writel old MX3_PWMSAR m
                              else m
                        else m
                      else m);
                 m = writel (of_nat duty_cycles) MX3_PWMSAR m
             in emit Local_irq_restore m)"

text \<open>The control register value of the final write.\<close>

definition apply_cr :: "nat \<Rightarrow> pwm_state \<Rightarrow> u32" where
  "apply_cr prescale state =
     (let cr = MX3_PWMCR_PRESCALER_SET prescale OR
               MX3_PWMCR_STOPEN OR MX3_PWMCR_DOZEN OR MX3_PWMCR_WAITEN OR
               FIELD_PREP MX3_PWMCR_CLKSRC MX3_PWMCR_CLKSRC_IPG_HIGH OR
               MX3_PWMCR_DBGEN;
          cr = (if polarity state = PWM_POLARITY_INVERSED
                then cr OR FIELD_PREP MX3_PWMCR_POUTC MX3_PWMCR_POUTC_INVERTED
                else cr)
      in if enabled state then cr OR MX3_PWMCR_EN else cr)"

text \<open>
  The committing writes: the period register, the cache of the duty cycle, the control
  register, and the clock released when the PWM ends up disabled.
\<close>

definition apply_commit :: "nat \<Rightarrow> nat \<Rightarrow> nat \<Rightarrow> pwm_state \<Rightarrow> machine \<Rightarrow> machine" where
  "apply_commit prescale period_cycles duty_cycles state m =
     (let m = writel (of_nat period_cycles) MX3_PWMPR m;
          m = m\<lparr>imx_duty_cycle := of_nat duty_cycles\<rparr>;
          m = writel (apply_cr prescale state) MX3_PWMCR m
      in if \<not> enabled state then emit Clk_disable m else m)"

text \<open>
  Waiting for a FIFO slot when the PWM is already enabled; otherwise enabling the clocks
  (with the early return when that fails) and resetting the controller. The result is
  \<open>ret\<close>.
\<close>

definition apply_prepare :: "platform \<Rightarrow> pwm_state \<Rightarrow> machine \<Rightarrow> int \<times> machine" where
  "apply_prepare pf pwm m =
     (if enabled pwm then (0, pwm_imx27_wait_fifo_slot pwm m)
      else
        let ret = clk_enable_ret pf;
            m = emit (Clk_enable ret) m
        in if ret \<noteq> 0 then (ret, m) else (0, pwm_imx27_sw_reset m))"

text \<open>
  \<open>pwm\<close> is \<open>pwm->state\<close>, the state the framework holds for the device, and
  \<open>state\<close> the requested one.
\<close>

definition pwm_imx27_apply ::
  "platform \<Rightarrow> pwm_state \<Rightarrow> pwm_state \<Rightarrow> machine \<Rightarrow> (error + unit) \<times> machine" where
  "pwm_imx27_apply pf pwm state m =
     (let clkrate = clk_get_rate pf in
      case apply_rate_convert (long_abi pf) clkrate state of
        (prescale, period_cycles, duty_cycles) \<Rightarrow>
          case apply_prepare pf pwm m of
            (ret, m) \<Rightarrow>
              if ret \<noteq> 0 then (Inl (Errno ret), m)
              else
                case readl MX3_PWMPR m of
                  (pr, m) \<Rightarrow>
                    case readl MX3_PWMCR m of
                      (cr, m) \<Rightarrow>
                        if div_by_zero clkrate then (Inl Division_by_zero, m)
                        else
                          let period_us = apply_period_us (long_abi pf) clkrate pr cr;
                              m = apply_write_sar clkrate cr period_us period_cycles
                                    duty_cycles m
                          in (Inr (), apply_commit prescale period_cycles duty_cycles state m))"

subsection \<open>pwm_imx27_get_state\<close>

text \<open>Counter units back to nanoseconds, rounded up.\<close>

definition get_state_ns :: "nat \<Rightarrow> nat \<Rightarrow> nat \<Rightarrow> nat" where
  "get_state_ns pwm_clk cycles prescaler =
     DIV_ROUND_UP_ULL ((NSEC_PER_SEC * cycles * prescaler) mod 2 ^ 64) pwm_clk"

text \<open>
  \<open>state\<close> is the caller's structure as passed in: the polarity stays as it was when
  the output is disconnected.
\<close>

definition pwm_imx27_get_state ::
  "platform \<Rightarrow> pwm_state \<Rightarrow> machine \<Rightarrow> (error + pwm_state) \<times> machine" where
  "pwm_imx27_get_state pf state m =
     (let ret = clk_enable_ret pf;
          m = emit (Clk_enable ret) m
      in if ret < 0 then (Inl (Errno ret), m)
         else
           case readl MX3_PWMCR m of
             (val, m) \<Rightarrow>
               let state = state\<lparr>enabled := (val AND MX3_PWMCR_EN \<noteq> 0)\<rparr>;
                   poutc = FIELD_GET MX3_PWMCR_POUTC val;
                   state = (if poutc = MX3_PWMCR_POUTC_NORMAL
                            then state\<lparr>polarity := PWM_POLARITY_NORMAL\<rparr>
                            else if poutc = MX3_PWMCR_POUTC_INVERTED
                            then state\<lparr>polarity := PWM_POLARITY_INVERSED\<rparr>
                            else state);
                   m = (if poutc = MX3_PWMCR_POUTC_NORMAL \<or> poutc = MX3_PWMCR_POUTC_INVERTED
                        then m
                        else emit (Dev_warn ''can't set polarity, output disconnected'') m);
                   prescaler = MX3_PWMCR_PRESCALER_GET val;
                   pwm_clk = clk_get_rate pf mod 2 ^ 32
               in case readl MX3_PWMPR m of
                    (val, m) \<Rightarrow>
                      let period_reg = (if unat val \<ge> MX3_PWMPR_MAX then of_nat MX3_PWMPR_MAX
                                        else val)
                      in if div_by_zero pwm_clk then (Inl Division_by_zero, m)
                         else
                           let state = state\<lparr>period :=
                                 of_nat (get_state_ns pwm_clk (unat (period_reg + 2)) prescaler)\<rparr>
                           in case (if enabled state then readl MX3_PWMSAR m
                                    else (imx_duty_cycle m, m)) of
                                (val, m) \<Rightarrow>
                                  let state = state\<lparr>duty_cycle :=
                                        of_nat (get_state_ns pwm_clk (unat val) prescaler)\<rparr>;
                                      m = emit Clk_disable m
                                  in (Inr state, m))"

subsection \<open>Observing the trace\<close>

text \<open>The register writes of a trace, in order.\<close>

fun writes :: "event list \<Rightarrow> (reg \<times> u32) list" where
  "writes [] = []"
| "writes (Writel r v # es) = (r, v) # writes es"
| "writes (e # es) = writes es"

text \<open>The events a run added to the trace of the machine it started from.\<close>

definition new_events :: "machine \<Rightarrow> machine \<Rightarrow> event list" where
  "new_events m m' = drop (length (trace m)) (trace m')"

text \<open>
  The values \<open>pwm_imx27_apply\<close> reads after its first step: the period register, the
  control register, the status register and, when the workaround looks at it, the counter.
\<close>

definition apply_pr_read :: "platform \<Rightarrow> pwm_state \<Rightarrow> machine \<Rightarrow> u32" where
  "apply_pr_read pf pwm m = shd (mmio (snd (apply_prepare pf pwm m)))"

definition apply_cr_read :: "platform \<Rightarrow> pwm_state \<Rightarrow> machine \<Rightarrow> u32" where
  "apply_cr_read pf pwm m = shd (stl (mmio (snd (apply_prepare pf pwm m))))"

definition apply_sr_read :: "platform \<Rightarrow> pwm_state \<Rightarrow> machine \<Rightarrow> u32" where
  "apply_sr_read pf pwm m = shd (stl (stl (mmio (snd (apply_prepare pf pwm m)))))"

definition apply_cnr_read :: "platform \<Rightarrow> pwm_state \<Rightarrow> machine \<Rightarrow> u32" where
  "apply_cnr_read pf pwm m = shd (stl (stl (stl (mmio (snd (apply_prepare pf pwm m))))))"

text \<open>The writes to the sample register among a list of writes.\<close>

definition sar_writes :: "(reg \<times> u32) list \<Rightarrow> u32 list" where
  "sar_writes ws = map snd (filter (\<lambda>w. fst w = MX3_PWMSAR) ws)"


text \<open>The events the reset polling can add, and those the erratum workaround can add.\<close>

definition reset_events :: "event set" where
  "reset_events = insert (Usleep_range 200 1000)
     (insert (Dev_warn ''software reset timeout'') (range (Readl MX3_PWMCR)))"

definition guard_events :: "u32 \<Rightarrow> event set" where
  "guard_events old = insert (Writel MX3_PWMSAR old) (range Udelay \<union> range (Readl MX3_PWMCNR))"

subsection \<open>Reading back what was applied\<close>

text \<open>
  The period and the duty cycle that \<open>pwm_imx27_get_state\<close> computes when the registers
  hold what \<open>pwm_imx27_apply\<close> wrote for \<open>state\<close>: the control word \<open>apply_cr\<close>, the
  period register and the sample register (or the cache) with the converted cycles.
\<close>

definition readback_period :: "abi \<Rightarrow> nat \<Rightarrow> pwm_state \<Rightarrow> nat" where
  "readback_period a clk state =
     (case apply_rate_convert a clk state of
        (prescale, period_cycles, duty_cycles) \<Rightarrow>
          let val = (of_nat period_cycles :: u32);
              period_reg = (if unat val \<ge> MX3_PWMPR_MAX then of_nat MX3_PWMPR_MAX else val)
          in get_state_ns (clk mod 2 ^ 32) (unat (period_reg + 2))
               (MX3_PWMCR_PRESCALER_GET (apply_cr prescale state)))"

definition readback_duty :: "abi \<Rightarrow> nat \<Rightarrow> pwm_state \<Rightarrow> nat" where
  "readback_duty a clk state =
     (case apply_rate_convert a clk state of
        (prescale, period_cycles, duty_cycles) \<Rightarrow>
          let val = (of_nat duty_cycles :: u32)
          in get_state_ns (clk mod 2 ^ 32) (unat val)
               (MX3_PWMCR_PRESCALER_GET (apply_cr prescale state)))"

subsection \<open>Example inputs\<close>

text \<open>
  An arm64 board with a 66 MHz clock. The PWM runs with a period of 5000 cycles and a
  duty cycle of 1000 cycles, and a duty cycle of 200 cycles is requested. The reads
  return: an empty FIFO, the period register 4998, the control register with the enable
  bit set, an empty FIFO again, and the counter at 150.
\<close>

definition ex_platform :: platform where
  "ex_platform = \<lparr>long_abi = LP64, per_clk_rate = 66000000, clk_enable_ret = 0\<rparr>"

definition ex_running :: pwm_state where
  "ex_running = \<lparr>period = 75758, duty_cycle = 15152, polarity = PWM_POLARITY_NORMAL,
     enabled = True\<rparr>"

definition ex_request :: pwm_state where
  "ex_request = \<lparr>period = 75758, duty_cycle = 3031, polarity = PWM_POLARITY_NORMAL,
     enabled = True\<rparr>"

definition ex_machine :: machine where
  "ex_machine = \<lparr>imx_duty_cycle = 1000,
     mmio = 0 ## 4998 ## 0x03C20001 ## 0 ## 150 ## sconst 0, trace = []\<rparr>"

text \<open>
  The same board with the PWM disabled: the control register reads 0x03C20000 (enable bit
  clear) and the period register 4998; the cached duty cycle is 1000 cycles.
\<close>

definition ex_idle_machine :: machine where
  "ex_idle_machine = \<lparr>imx_duty_cycle = 1000, mmio = 0x03C20000 ## 4998 ## sconst 0,
     trace = []\<rparr>"



text \<open>
  The same scenario on a 24 MHz clock: 5000 cycles of period, 1000 cycles of duty cycle
  running, 200 cycles requested.
\<close>

definition ex_platform_24 :: platform where
  "ex_platform_24 = \<lparr>long_abi = LP64, per_clk_rate = 24000000, clk_enable_ret = 0\<rparr>"

definition ex_running_24 :: pwm_state where
  "ex_running_24 = \<lparr>period = 208334, duty_cycle = 41667, polarity = PWM_POLARITY_NORMAL,
     enabled = True\<rparr>"

definition ex_request_24 :: pwm_state where
  "ex_request_24 = \<lparr>period = 208334, duty_cycle = 8334, polarity = PWM_POLARITY_NORMAL,
     enabled = True\<rparr>"

text \<open>A request that raises the duty cycle of the 66 MHz example to 1200 cycles.\<close>

definition ex_request_up :: pwm_state where
  "ex_request_up = \<lparr>period = 75758, duty_cycle = 18182, polarity = PWM_POLARITY_NORMAL,
     enabled = True\<rparr>"

text \<open>
  More requests for the 66 MHz example: a duty cycle of 100 percent, a period below one
  counter tick, and a period of five seconds.
\<close>

definition ex_full_duty :: pwm_state where
  "ex_full_duty = \<lparr>period = 1000000, duty_cycle = 1000000, polarity = PWM_POLARITY_NORMAL,
     enabled = True\<rparr>"

definition ex_tiny :: pwm_state where
  "ex_tiny = \<lparr>period = 10, duty_cycle = 5, polarity = PWM_POLARITY_NORMAL, enabled = True\<rparr>"

definition ex_slow :: pwm_state where
  "ex_slow = \<lparr>period = 5000000000, duty_cycle = 2500000000, polarity = PWM_POLARITY_NORMAL,
     enabled = True\<rparr>"

text \<open>A request for a period of exactly two counter ticks of the 66 MHz clock.\<close>

definition ex_two_ticks :: pwm_state where
  "ex_two_ticks = \<lparr>period = 31, duty_cycle = 16, polarity = PWM_POLARITY_NORMAL,
     enabled = True\<rparr>"

text \<open>A board whose clock framework reports a rate of zero.\<close>

definition ex_platform_zero :: platform where
  "ex_platform_zero = \<lparr>long_abi = LP64, per_clk_rate = 0, clk_enable_ret = 0\<rparr>"

section \<open>Basic facts\<close>

lemma MX3_values:
  "MX3_PWMCR_STOPEN = 0x02000000" "MX3_PWMCR_DOZEN = 0x01000000"
  "MX3_PWMCR_WAITEN = 0x00800000" "MX3_PWMCR_DBGEN = 0x00400000"
  "MX3_PWMCR_POUTC = 0xC0000" "MX3_PWMCR_CLKSRC = 0x30000"
  "MX3_PWMCR_PRESCALER = 0xFFF0" "MX3_PWMCR_SWR = 8" "MX3_PWMCR_EN = 1"
  "MX3_PWMSR_FIFOAV = 7"
  by (simp_all add: MX3_PWMCR_STOPEN_def MX3_PWMCR_DOZEN_def MX3_PWMCR_WAITEN_def
      MX3_PWMCR_DBGEN_def MX3_PWMCR_POUTC_def MX3_PWMCR_CLKSRC_def MX3_PWMCR_PRESCALER_def
      MX3_PWMCR_SWR_def MX3_PWMCR_EN_def MX3_PWMSR_FIFOAV_def BIT_def GENMASK_def
      mask_eq_exp_minus_1)

lemma bf_shf_values:
  "bf_shf 0xFFF0 = 4" "bf_shf 7 = 0" "bf_shf 0xC0000 = 18" "bf_shf 0x30000 = 16"
  by code_simp+

lemma FIELD_GET_values:
  "FIELD_GET MX3_PWMCR_PRESCALER r = drop_bit 4 (r AND 0xFFF0)"
  "FIELD_GET MX3_PWMCR_POUTC r = drop_bit 18 (r AND 0xC0000)"
  "FIELD_GET MX3_PWMCR_CLKSRC r = drop_bit 16 (r AND 0x30000)"
  "FIELD_GET MX3_PWMSR_FIFOAV r = r AND 7"
  by (simp_all add: FIELD_GET_def MX3_values bf_shf_values)

lemma FIELD_PREP_values:
  "FIELD_PREP MX3_PWMCR_PRESCALER v = push_bit 4 v AND 0xFFF0"
  "FIELD_PREP MX3_PWMCR_POUTC v = push_bit 18 v AND 0xC0000"
  "FIELD_PREP MX3_PWMCR_CLKSRC v = push_bit 16 v AND 0x30000"
  by (simp_all add: FIELD_PREP_def MX3_values bf_shf_values)

lemma emit_simps [simp]:
  "trace (emit e m) = trace m @ [e]"
  "mmio (emit e m) = mmio m"
  "imx_duty_cycle (emit e m) = imx_duty_cycle m"
  by (simp_all add: emit_def)

lemma readl_simps [simp]:
  "fst (readl r m) = shd (mmio m)"
  "trace (snd (readl r m)) = trace m @ [Readl r (shd (mmio m))]"
  "mmio (snd (readl r m)) = stl (mmio m)"
  "imx_duty_cycle (snd (readl r m)) = imx_duty_cycle m"
  by (simp_all add: readl_def)

lemma writel_simps [simp]:
  "trace (writel v r m) = trace m @ [Writel r v]"
  "mmio (writel v r m) = mmio m"
  "imx_duty_cycle (writel v r m) = imx_duty_cycle m"
  by (simp_all add: writel_def)

lemma writes_append [simp]: "writes (xs @ ys) = writes xs @ writes ys"
  by (induction xs rule: writes.induct) simp_all

lemma new_events_append [simp]: "trace m' = trace m @ es \<Longrightarrow> new_events m m' = es"
  by (simp add: new_events_def)

lemma writes_empty: "(\<And>r v. Writel r v \<notin> set es) \<Longrightarrow> writes es = []"
proof (induction es)
  case Nil
  show ?case by simp
next
  case (Cons e es)
  then show ?case by (cases e) auto
qed

subsection \<open>The control word\<close>

lemma apply_cr_eq:
  "apply_cr prescale state =
     (push_bit 4 (of_nat (prescale - 1)) AND 0xFFF0) OR 0x03C20000 OR
     (if polarity state = PWM_POLARITY_INVERSED then 0x40000 else 0) OR
     (if enabled state then 1 else 0)"
  unfolding apply_cr_def Let_def MX3_PWMCR_PRESCALER_SET_def FIELD_PREP_values
  by (simp add: MX3_values MX3_PWMCR_CLKSRC_IPG_HIGH_def MX3_PWMCR_POUTC_INVERTED_def ac_simps)

lemma apply_cr_fixed_bits:
  "apply_cr prescale state AND MX3_PWMCR_STOPEN = MX3_PWMCR_STOPEN"
  "apply_cr prescale state AND MX3_PWMCR_DOZEN = MX3_PWMCR_DOZEN"
  "apply_cr prescale state AND MX3_PWMCR_WAITEN = MX3_PWMCR_WAITEN"
  "apply_cr prescale state AND MX3_PWMCR_DBGEN = MX3_PWMCR_DBGEN"
  "apply_cr prescale state AND MX3_PWMCR_SWR = 0"
  "apply_cr prescale state AND MX3_PWMCR_CLKSRC = 0x20000"
  "apply_cr prescale state AND MX3_PWMCR_EN = (if enabled state then MX3_PWMCR_EN else 0)"
  "apply_cr prescale state AND MX3_PWMCR_POUTC =
     (if polarity state = PWM_POLARITY_INVERSED then 0x40000 else 0)"
  "apply_cr prescale state AND MX3_PWMCR_PRESCALER =
     push_bit 4 (of_nat (prescale - 1)) AND 0xFFF0"
  "apply_cr prescale state AND NOT (MX3_PWMCR_PRESCALER OR MX3_PWMCR_POUTC OR MX3_PWMCR_EN) =
     0x03C20000"
  unfolding apply_cr_eq FIELD_PREP_values MX3_values
  by (simp_all add: bit.conj_disj_distrib2 and.assoc)

lemma prescaler_field_roundtrip:
  "drop_bit 4 (push_bit 4 v AND 0xFFF0) = take_bit 12 (v :: u32)"
proof -
  have m: "(0xFFF0 :: u32) = push_bit 4 (mask 12)"
    by (simp add: mask_eq_exp_minus_1)
  show ?thesis
    unfolding m by (auto simp add: bit_eq_iff bit_simps)
qed

lemma unat_take_bit_12: "unat (take_bit 12 (of_nat n :: u32)) = n mod 4096"
proof -
  have "unat (take_bit 12 (of_nat n :: u32)) = take_bit 12 (take_bit 32 n)"
    by (simp only: unsigned_take_bit_eq unsigned_of_nat) simp
  also have "\<dots> = take_bit 12 n"
    by simp
  also have "\<dots> = n mod 4096"
    by (simp add: take_bit_eq_mod)
  finally show ?thesis .
qed

lemma apply_cr_prescaler:
  "MX3_PWMCR_PRESCALER_GET (apply_cr prescale state) = (prescale - 1) mod 4096 + 1"
proof -
  have "FIELD_GET MX3_PWMCR_PRESCALER (apply_cr prescale state) =
      drop_bit 4 (apply_cr prescale state AND MX3_PWMCR_PRESCALER)"
    by (simp add: FIELD_GET_def MX3_values bf_shf_values)
  then have "FIELD_GET MX3_PWMCR_PRESCALER (apply_cr prescale state) =
      take_bit 12 (of_nat (prescale - 1))"
    by (simp only: apply_cr_fixed_bits(9) prescaler_field_roundtrip)
  then show ?thesis
    by (simp only: MX3_PWMCR_PRESCALER_GET_def unat_take_bit_12)
qed

lemma apply_cr_fields:
  "FIELD_GET MX3_PWMCR_CLKSRC (apply_cr prescale state) = MX3_PWMCR_CLKSRC_IPG_HIGH"
  "FIELD_GET MX3_PWMCR_POUTC (apply_cr prescale state) =
     (if polarity state = PWM_POLARITY_INVERSED then MX3_PWMCR_POUTC_INVERTED
      else MX3_PWMCR_POUTC_NORMAL)"
proof -
  have "FIELD_GET MX3_PWMCR_CLKSRC (apply_cr prescale state) =
      drop_bit 16 (apply_cr prescale state AND MX3_PWMCR_CLKSRC)"
    by (simp add: FIELD_GET_def MX3_values bf_shf_values)
  then show "FIELD_GET MX3_PWMCR_CLKSRC (apply_cr prescale state) = MX3_PWMCR_CLKSRC_IPG_HIGH"
    by (simp add: apply_cr_fixed_bits(6) MX3_PWMCR_CLKSRC_IPG_HIGH_def)
  have "FIELD_GET MX3_PWMCR_POUTC (apply_cr prescale state) =
      drop_bit 18 (apply_cr prescale state AND MX3_PWMCR_POUTC)"
    by (simp add: FIELD_GET_def MX3_values bf_shf_values)
  then show "FIELD_GET MX3_PWMCR_POUTC (apply_cr prescale state) =
     (if polarity state = PWM_POLARITY_INVERSED then MX3_PWMCR_POUTC_INVERTED
      else MX3_PWMCR_POUTC_NORMAL)"
    by (simp add: apply_cr_fixed_bits(8) MX3_PWMCR_POUTC_INVERTED_def MX3_PWMCR_POUTC_NORMAL_def)
qed
subsection \<open>What each step adds to the trace\<close>

lemma sw_reset_poll_frame:
  "imx_duty_cycle (snd (sw_reset_poll n m)) = imx_duty_cycle m \<and>
   (\<exists>es. trace (snd (sw_reset_poll n m)) = trace m @ es \<and>
      set es \<subseteq> insert (Usleep_range 200 1000) (range (Readl MX3_PWMCR)))"
proof (induction n m rule: sw_reset_poll.induct)
  case (1 wait_count m)
  define m1 where "m1 = snd (readl MX3_PWMCR (emit (Usleep_range 200 1000) m))"
  define cr where "cr = shd (mmio m)"
  have r: "(cr, m1) = readl MX3_PWMCR (emit (Usleep_range 200 1000) m)"
    by (simp add: m1_def cr_def prod_eq_iff)
  have m1: "imx_duty_cycle m1 = imx_duty_cycle m"
    "trace m1 = trace m @ [Usleep_range 200 1000, Readl MX3_PWMCR cr]"
    by (simp_all add: m1_def cr_def)
  show ?case
  proof (cases "cr AND MX3_PWMCR_SWR \<noteq> 0 \<and> wait_count < MX3_PWM_SWR_LOOP")
    case True
    have step: "sw_reset_poll wait_count m = sw_reset_poll (wait_count + 1) m1"
      using True r [symmetric] by (subst sw_reset_poll.simps) simp
    from 1 [OF r True] obtain es where
      "imx_duty_cycle (snd (sw_reset_poll (wait_count + 1) m1)) = imx_duty_cycle m1"
      "trace (snd (sw_reset_poll (wait_count + 1) m1)) = trace m1 @ es"
      "set es \<subseteq> insert (Usleep_range 200 1000) (range (Readl MX3_PWMCR))"
      by blast
    then show ?thesis
      by (simp add: step m1)
  next
    case False
    have "sw_reset_poll wait_count m = (cr, m1)"
      using False r [symmetric] by (subst sw_reset_poll.simps) auto
    then show ?thesis
      by (simp add: m1)
  qed
qed

lemma sw_reset_frame:
  "imx_duty_cycle (pwm_imx27_sw_reset m) = imx_duty_cycle m \<and>
   (\<exists>es. trace (pwm_imx27_sw_reset m) = trace m @ Writel MX3_PWMCR MX3_PWMCR_SWR # es \<and>
      set es \<subseteq> reset_events)"
proof -
  define m0 where "m0 = writel MX3_PWMCR_SWR MX3_PWMCR m"
  obtain es where es: "imx_duty_cycle (snd (sw_reset_poll 0 m0)) = imx_duty_cycle m0"
    "trace (snd (sw_reset_poll 0 m0)) = trace m0 @ es"
    "set es \<subseteq> insert (Usleep_range 200 1000) (range (Readl MX3_PWMCR))"
    using sw_reset_poll_frame [of 0 m0] by blast
  show ?thesis
  proof (cases "fst (sw_reset_poll 0 m0) AND MX3_PWMCR_SWR \<noteq> 0")
    case True
    then have "pwm_imx27_sw_reset m = emit (Dev_warn ''software reset timeout'') (snd (sw_reset_poll 0 m0))"
      by (simp add: pwm_imx27_sw_reset_def m0_def split_beta)
    then show ?thesis using es by (auto simp: m0_def reset_events_def)
  next
    case False
    then have "pwm_imx27_sw_reset m = snd (sw_reset_poll 0 m0)"
      by (simp add: pwm_imx27_sw_reset_def m0_def split_beta)
    then show ?thesis using es by (auto simp: m0_def reset_events_def)
  qed
qed

text \<open>
  The reset always comes to an end: after the write there are at most six polls, a sleep
  and a read each, and at most one warning.
\<close>

lemma sw_reset_poll_length:
  "wait_count \<le> MX3_PWM_SWR_LOOP \<Longrightarrow>
     length (trace (snd (sw_reset_poll wait_count m))) \<le>
       length (trace m) + 2 * (MX3_PWM_SWR_LOOP + 1 - wait_count)"
proof (induction wait_count m rule: sw_reset_poll.induct)
  case (1 wait_count m)
  define m1 where "m1 = snd (readl MX3_PWMCR (emit (Usleep_range 200 1000) m))"
  define cr where "cr = shd (mmio m)"
  have r: "(cr, m1) = readl MX3_PWMCR (emit (Usleep_range 200 1000) m)"
    by (simp add: m1_def cr_def prod_eq_iff)
  have m1: "length (trace m1) = length (trace m) + 2"
    by (simp add: m1_def)
  show ?case
  proof (cases "cr AND MX3_PWMCR_SWR \<noteq> 0 \<and> wait_count < MX3_PWM_SWR_LOOP")
    case True
    have step: "sw_reset_poll wait_count m = sw_reset_poll (wait_count + 1) m1"
      using True r [symmetric] by (subst sw_reset_poll.simps) simp
    have "length (trace (snd (sw_reset_poll (wait_count + 1) m1))) \<le>
        length (trace m1) + 2 * (MX3_PWM_SWR_LOOP + 1 - (wait_count + 1))"
      using True by (intro "1.IH" [OF r]) simp_all
    moreover have "2 + 2 * (MX3_PWM_SWR_LOOP + 1 - (wait_count + 1)) =
        2 * (MX3_PWM_SWR_LOOP + 1 - wait_count)"
      using True by arith
    ultimately show ?thesis
      unfolding step m1 by linarith
  next
    case False
    have "sw_reset_poll wait_count m = (cr, m1)"
      using False r [symmetric] by (subst sw_reset_poll.simps) auto
    then show ?thesis
      using "1.prems" by (simp add: m1)
  qed
qed

lemma sw_reset_bounded: "length (new_events m (pwm_imx27_sw_reset m)) \<le> 14"
proof -
  have "length (trace (snd (sw_reset_poll 0 (writel MX3_PWMCR_SWR MX3_PWMCR m)))) \<le>
      length (trace m) + 13"
    using sw_reset_poll_length [of 0 "writel MX3_PWMCR_SWR MX3_PWMCR m"]
    by (simp add: MX3_PWM_SWR_LOOP_def)
  then show ?thesis
    by (auto simp add: pwm_imx27_sw_reset_def split_beta new_events_def)
qed

lemma wait_fifo_slot_trace:
  "trace (pwm_imx27_wait_fifo_slot pwm m) = trace m @
     (if FIELD_GET MX3_PWMSR_FIFOAV (shd (mmio m)) = MX3_PWMSR_FIFOAV_4WORDS
      then [Readl MX3_PWMSR (shd (mmio m)),
            Msleep (DIV_ROUND_UP_ULL (unat (period pwm)) NSEC_PER_MSEC mod 2 ^ 32),
            Readl MX3_PWMSR (shd (stl (mmio m)))] @
           (if FIELD_GET MX3_PWMSR_FIFOAV (shd (stl (mmio m))) = MX3_PWMSR_FIFOAV_4WORDS
            then [Dev_warn ''there is no free FIFO slot''] else [])
      else [Readl MX3_PWMSR (shd (mmio m))])"
  "imx_duty_cycle (pwm_imx27_wait_fifo_slot pwm m) = imx_duty_cycle m"
  by (auto simp add: pwm_imx27_wait_fifo_slot_def split_beta Let_def)

lemma apply_write_sar_trace:
  "imx_duty_cycle (apply_write_sar clkrate cr period_us period_cycles duty_cycles m) =
     imx_duty_cycle m \<and>
   (\<exists>mid. trace (apply_write_sar clkrate cr period_us period_cycles duty_cycles m) =
      trace m @ [Local_irq_save, Readl MX3_PWMSR (shd (mmio m))] @ mid @
        [Writel MX3_PWMSAR (of_nat duty_cycles), Local_irq_restore] \<and>
      set mid \<subseteq> guard_events (imx_duty_cycle m) \<and>
      (\<not> (duty_cycles < unat (imx_duty_cycle m) \<and> cr AND MX3_PWMCR_EN \<noteq> 0) \<longrightarrow> mid = []))"
  by (auto simp add: apply_write_sar_def split_beta Let_def guard_events_def)

lemma apply_commit_trace:
  "trace (apply_commit prescale period_cycles duty_cycles state m) = trace m @
     [Writel MX3_PWMPR (of_nat period_cycles), Writel MX3_PWMCR (apply_cr prescale state)] @
     (if enabled state then [] else [Clk_disable])"
  "imx_duty_cycle (apply_commit prescale period_cycles duty_cycles state m) = of_nat duty_cycles"
  by (simp_all add: apply_commit_def Let_def)


lemma apply_prepare_cases:
  "enabled pwm \<Longrightarrow> apply_prepare pf pwm m = (0, pwm_imx27_wait_fifo_slot pwm m)"
  "\<not> enabled pwm \<Longrightarrow> clk_enable_ret pf = 0 \<Longrightarrow>
     apply_prepare pf pwm m = (0, pwm_imx27_sw_reset (emit (Clk_enable 0) m))"
  "\<not> enabled pwm \<Longrightarrow> clk_enable_ret pf \<noteq> 0 \<Longrightarrow>
     apply_prepare pf pwm m = (clk_enable_ret pf, emit (Clk_enable (clk_enable_ret pf)) m)"
  by (simp_all add: apply_prepare_def Let_def)

lemma apply_success_iff:
  "fst (pwm_imx27_apply pf pwm state m) = Inr () \<longleftrightarrow>
     fst (apply_prepare pf pwm m) = 0 \<and> \<not> div_by_zero (clk_get_rate pf)"
  by (simp add: pwm_imx27_apply_def split_beta Let_def)

lemma sw_reset_duty: "imx_duty_cycle (pwm_imx27_sw_reset m) = imx_duty_cycle m"
  using sw_reset_frame [of m] by blast

lemma apply_prepare_duty:
  "imx_duty_cycle (snd (apply_prepare pf pwm m)) = imx_duty_cycle m"
  by (simp add: apply_prepare_def Let_def wait_fifo_slot_trace sw_reset_duty)

lemma apply_trace:
  assumes conv: "apply_rate_convert (long_abi pf) (clk_get_rate pf) state = (prescale, pc, dc)"
    and ok: "fst (pwm_imx27_apply pf pwm state m) = Inr ()"
    and m1: "m1 = snd (apply_prepare pf pwm m)"
  shows "imx_duty_cycle (snd (pwm_imx27_apply pf pwm state m)) = of_nat dc \<and>
    (\<exists>mid. trace (snd (pwm_imx27_apply pf pwm state m)) =
       trace m1 @
       [Readl MX3_PWMPR (shd (mmio m1)), Readl MX3_PWMCR (shd (stl (mmio m1))),
        Local_irq_save, Readl MX3_PWMSR (shd (stl (stl (mmio m1))))] @ mid @
       [Writel MX3_PWMSAR (of_nat dc), Local_irq_restore,
        Writel MX3_PWMPR (of_nat pc), Writel MX3_PWMCR (apply_cr prescale state)] @
       (if enabled state then [] else [Clk_disable]) \<and>
       set mid \<subseteq> guard_events (imx_duty_cycle m) \<and>
       (\<not> (dc < unat (imx_duty_cycle m) \<and> shd (stl (mmio m1)) AND MX3_PWMCR_EN \<noteq> 0) \<longrightarrow>
          mid = []))"
proof -
  from ok have p0: "fst (apply_prepare pf pwm m) = 0" and nz: "\<not> div_by_zero (clk_get_rate pf)"
    by (simp_all add: apply_success_iff)
  define m2 where "m2 = snd (readl MX3_PWMCR (snd (readl MX3_PWMPR m1)))"
  define pus where "pus = apply_period_us (long_abi pf) (clk_get_rate pf) (shd (mmio m1))
    (shd (stl (mmio m1)))"
  have res: "snd (pwm_imx27_apply pf pwm state m) =
      apply_commit prescale pc dc state
        (apply_write_sar (clk_get_rate pf) (shd (stl (mmio m1))) pus pc dc m2)"
    using p0 nz conv by (simp add: pwm_imx27_apply_def split_beta Let_def m1 m2_def pus_def)
  have m2: "trace m2 = trace m1 @ [Readl MX3_PWMPR (shd (mmio m1)),
        Readl MX3_PWMCR (shd (stl (mmio m1)))]"
    "mmio m2 = stl (stl (mmio m1))" "imx_duty_cycle m2 = imx_duty_cycle m"
    by (simp_all add: m2_def m1 apply_prepare_duty)
  from apply_write_sar_trace [of "clk_get_rate pf" "shd (stl (mmio m1))" pus pc dc m2]
  obtain mid where mid:
    "trace (apply_write_sar (clk_get_rate pf) (shd (stl (mmio m1))) pus pc dc m2) =
       trace m2 @ [Local_irq_save, Readl MX3_PWMSR (shd (mmio m2))] @ mid @
         [Writel MX3_PWMSAR (of_nat dc), Local_irq_restore]"
    "set mid \<subseteq> guard_events (imx_duty_cycle m2)"
    "\<not> (dc < unat (imx_duty_cycle m2) \<and> shd (stl (mmio m1)) AND MX3_PWMCR_EN \<noteq> 0) \<longrightarrow> mid = []"
    by blast
  show ?thesis
    unfolding res using mid by (simp add: apply_commit_trace m2)
qed

lemma apply_prepare_trace:
  "enabled pwm \<Longrightarrow>
     trace (snd (apply_prepare pf pwm m)) = trace m @
       (if FIELD_GET MX3_PWMSR_FIFOAV (shd (mmio m)) = MX3_PWMSR_FIFOAV_4WORDS
        then [Readl MX3_PWMSR (shd (mmio m)),
              Msleep (DIV_ROUND_UP_ULL (unat (period pwm)) NSEC_PER_MSEC mod 2 ^ 32),
              Readl MX3_PWMSR (shd (stl (mmio m)))] @
             (if FIELD_GET MX3_PWMSR_FIFOAV (shd (stl (mmio m))) = MX3_PWMSR_FIFOAV_4WORDS
              then [Dev_warn ''there is no free FIFO slot''] else [])
        else [Readl MX3_PWMSR (shd (mmio m))])"
  "\<not> enabled pwm \<Longrightarrow>
     \<exists>es. trace (snd (apply_prepare pf pwm m)) = trace m @
       Clk_enable (clk_enable_ret pf) #
       (if clk_enable_ret pf = 0 then Writel MX3_PWMCR MX3_PWMCR_SWR # es else []) \<and>
       set es \<subseteq> reset_events"
proof -
  show "enabled pwm \<Longrightarrow>
     trace (snd (apply_prepare pf pwm m)) = trace m @
       (if FIELD_GET MX3_PWMSR_FIFOAV (shd (mmio m)) = MX3_PWMSR_FIFOAV_4WORDS
        then [Readl MX3_PWMSR (shd (mmio m)),
              Msleep (DIV_ROUND_UP_ULL (unat (period pwm)) NSEC_PER_MSEC mod 2 ^ 32),
              Readl MX3_PWMSR (shd (stl (mmio m)))] @
             (if FIELD_GET MX3_PWMSR_FIFOAV (shd (stl (mmio m))) = MX3_PWMSR_FIFOAV_4WORDS
              then [Dev_warn ''there is no free FIFO slot''] else [])
        else [Readl MX3_PWMSR (shd (mmio m))])"
    by (simp add: apply_prepare_cases wait_fifo_slot_trace)
next
  assume dis: "\<not> enabled pwm"
  show "\<exists>es. trace (snd (apply_prepare pf pwm m)) = trace m @
       Clk_enable (clk_enable_ret pf) #
       (if clk_enable_ret pf = 0 then Writel MX3_PWMCR MX3_PWMCR_SWR # es else []) \<and>
       set es \<subseteq> reset_events"
  proof (cases "clk_enable_ret pf = 0")
    case True
    obtain es where "trace (pwm_imx27_sw_reset (emit (Clk_enable 0) m)) =
        trace (emit (Clk_enable 0) m) @ Writel MX3_PWMCR MX3_PWMCR_SWR # es"
      "set es \<subseteq> reset_events"
      using sw_reset_frame [of "emit (Clk_enable 0) m"] by blast
    then show ?thesis
      using dis True by (auto simp add: apply_prepare_cases)
  next
    case False
    then have "trace (snd (apply_prepare pf pwm m)) = trace m @
       Clk_enable (clk_enable_ret pf) #
       (if clk_enable_ret pf = 0 then Writel MX3_PWMCR MX3_PWMCR_SWR # [] else []) \<and>
       set [] \<subseteq> reset_events"
      using dis by (simp add: apply_prepare_cases)
    then show ?thesis by blast
  qed
qed

lemma apply_prepare_prefix: "\<exists>pre. trace (snd (apply_prepare pf pwm m)) = trace m @ pre"
  using apply_prepare_trace [of pwm pf m] by (cases "enabled pwm") auto

lemma apply_div_by_zero:
  assumes "fst (apply_prepare pf pwm m) = 0" and "div_by_zero (clk_get_rate pf)"
  shows "fst (pwm_imx27_apply pf pwm state m) = Inl Division_by_zero"
    and "trace (snd (pwm_imx27_apply pf pwm state m)) =
      trace (snd (apply_prepare pf pwm m)) @
       [Readl MX3_PWMPR (apply_pr_read pf pwm m), Readl MX3_PWMCR (apply_cr_read pf pwm m)]"
  using assms
  by (simp_all add: pwm_imx27_apply_def split_beta Let_def apply_pr_read_def apply_cr_read_def)


lemma apply_prepare_enabled_ret: "enabled pwm \<Longrightarrow> fst (apply_prepare pf pwm m) = 0"
  by (simp add: apply_prepare_cases)

lemma get_state_disabled:
  assumes ret: "\<not> clk_enable_ret pf < 0"
    and dis: "shd (mmio m) AND MX3_PWMCR_EN = 0"
    and nz: "\<not> div_by_zero (clk_get_rate pf mod 2 ^ 32)"
  shows "\<exists>st'. fst (pwm_imx27_get_state pf st m) = Inr st' \<and> \<not> enabled st' \<and>
      duty_cycle st' = of_nat (get_state_ns (clk_get_rate pf mod 2 ^ 32)
        (unat (imx_duty_cycle m)) (MX3_PWMCR_PRESCALER_GET (shd (mmio m))))"
    and "new_events m (snd (pwm_imx27_get_state pf st m)) =
      Clk_enable (clk_enable_ret pf) # Readl MX3_PWMCR (shd (mmio m)) #
      (if FIELD_GET MX3_PWMCR_POUTC (shd (mmio m)) = MX3_PWMCR_POUTC_NORMAL \<or>
          FIELD_GET MX3_PWMCR_POUTC (shd (mmio m)) = MX3_PWMCR_POUTC_INVERTED
       then [] else [Dev_warn ''can't set polarity, output disconnected'']) @
      [Readl MX3_PWMPR (shd (stl (mmio m))), Clk_disable]"
  using assms
  by (simp_all add: pwm_imx27_get_state_def split_beta Let_def new_events_def)


lemma sar_writes_simps [simp]:
  "sar_writes [] = []"
  "sar_writes ((r, v) # ws) = (if r = MX3_PWMSAR then v # sar_writes ws else sar_writes ws)"
  "sar_writes (xs @ ys) = sar_writes xs @ sar_writes ys"
  by (simp_all add: sar_writes_def)

lemma apply_prepare_writes:
  "\<exists>pre. trace (snd (apply_prepare pf pwm m)) = trace m @ pre \<and> sar_writes (writes pre) = []"
proof (cases "enabled pwm")
  case True
  show ?thesis
    using apply_prepare_trace(1) [OF True, of pf m] by auto
next
  case False
  from apply_prepare_trace(2) [OF False, of pf m] obtain es where es:
    "trace (snd (apply_prepare pf pwm m)) = trace m @
       Clk_enable (clk_enable_ret pf) #
       (if clk_enable_ret pf = 0 then Writel MX3_PWMCR MX3_PWMCR_SWR # es else [])"
    "set es \<subseteq> reset_events"
    by blast
  have "writes es = []"
    using es(2) by (intro writes_empty) (auto simp: reset_events_def)
  then show ?thesis
    using es(1) by auto
qed

lemma apply_sar_writes:
  assumes conv: "apply_rate_convert (long_abi pf) (clk_get_rate pf) state = (prescale, pc, dc)"
    and ok: "fst (pwm_imx27_apply pf pwm state m) = Inr ()"
  shows "\<exists>mid. sar_writes (writes (new_events m (snd (pwm_imx27_apply pf pwm state m)))) =
            sar_writes (writes mid) @ [of_nat dc] \<and>
          set mid \<subseteq> guard_events (imx_duty_cycle m) \<and>
          (\<not> (dc < unat (imx_duty_cycle m) \<and> apply_cr_read pf pwm m AND MX3_PWMCR_EN \<noteq> 0) \<longrightarrow>
             mid = [])"
proof -
  obtain pre where pre: "trace (snd (apply_prepare pf pwm m)) = trace m @ pre"
    "sar_writes (writes pre) = []"
    using apply_prepare_writes by blast
  from apply_trace [OF conv ok refl] obtain mid where mid:
    "trace (snd (pwm_imx27_apply pf pwm state m)) =
       trace (snd (apply_prepare pf pwm m)) @
       [Readl MX3_PWMPR (shd (mmio (snd (apply_prepare pf pwm m)))),
        Readl MX3_PWMCR (shd (stl (mmio (snd (apply_prepare pf pwm m))))),
        Local_irq_save, Readl MX3_PWMSR (shd (stl (stl (mmio (snd (apply_prepare pf pwm m))))))] @
       mid @
       [Writel MX3_PWMSAR (of_nat dc), Local_irq_restore,
        Writel MX3_PWMPR (of_nat pc), Writel MX3_PWMCR (apply_cr prescale state)] @
       (if enabled state then [] else [Clk_disable])"
    "set mid \<subseteq> guard_events (imx_duty_cycle m)"
    "\<not> (dc < unat (imx_duty_cycle m) \<and>
        shd (stl (mmio (snd (apply_prepare pf pwm m)))) AND MX3_PWMCR_EN \<noteq> 0) \<longrightarrow> mid = []"
    by blast
  have "sar_writes (writes (new_events m (snd (pwm_imx27_apply pf pwm state m)))) =
            sar_writes (writes mid) @ [of_nat dc]"
    using mid(1) pre by (simp add: new_events_def)
  then show ?thesis
    using mid(2,3) by (auto simp: apply_cr_read_def)
qed

lemma DIV_ROUND_UP_ULL_pos:
  assumes "0 < d"
  shows "DIV_ROUND_UP_ULL ll d = (ll + d - 1) mod 2 ^ 64 div (d mod 2 ^ 32)"
proof -
  have "ll + d + 2 ^ 64 - 1 = (ll + d - 1) + 2 ^ 64"
    using assms by simp
  then have "(ll + d + 2 ^ 64 - 1) mod 2 ^ 64 = (ll + d - 1) mod 2 ^ 64"
    by (simp only: mod_add_self2)
  then show ?thesis
    by (simp only: DIV_ROUND_UP_ULL_def do_div_def)
qed



lemma guard_sar_writes:
  "set mid \<subseteq> guard_events old \<Longrightarrow> \<exists>g. sar_writes (writes mid) = replicate g old"
proof (induction mid)
  case Nil
  show ?case by simp
next
  case (Cons e mid)
  then obtain g where g: "sar_writes (writes mid) = replicate g old"
    by auto
  from Cons.prems have "e \<in> guard_events old"
    by simp
  then consider "e = Writel MX3_PWMSAR old" | n where "e = Udelay n"
    | v where "e = Readl MX3_PWMCNR v"
    by (auto simp: guard_events_def)
  then show ?case
  proof cases
    case 1
    then have "sar_writes (writes (e # mid)) = replicate (Suc g) old"
      using g by simp
    then show ?thesis by blast
  next
    case 2
    then show ?thesis using g by auto
  next
    case 3
    then show ?thesis using g by auto
  qed
qed

lemma apply_result:
  assumes conv: "apply_rate_convert (long_abi pf) (clk_get_rate pf) state = (prescale, pc, dc)"
    and ok: "fst (pwm_imx27_apply pf pwm state m) = Inr ()"
  shows "snd (pwm_imx27_apply pf pwm state m) =
      apply_commit prescale pc dc state
        (apply_write_sar (clk_get_rate pf) (apply_cr_read pf pwm m)
           (apply_period_us (long_abi pf) (clk_get_rate pf) (apply_pr_read pf pwm m)
              (apply_cr_read pf pwm m))
           pc dc
           (snd (readl MX3_PWMCR (snd (readl MX3_PWMPR (snd (apply_prepare pf pwm m)))))))"
proof -
  from ok have p0: "fst (apply_prepare pf pwm m) = 0" and nz: "\<not> div_by_zero (clk_get_rate pf)"
    by (simp_all add: apply_success_iff)
  show ?thesis
    using p0 nz conv
    by (simp add: pwm_imx27_apply_def split_beta Let_def apply_cr_read_def apply_pr_read_def)
qed

lemma apply_write_sar_guard:
  assumes "dc < unat (imx_duty_cycle m)" and "cr AND MX3_PWMCR_EN \<noteq> 0"
    and "pus < 2 \<or>
         (FIELD_GET MX3_PWMSR_FIFOAV (shd (mmio m)) < MX3_PWMSR_FIFOAV_2WORDS \<and>
          dc \<le> (int_to_u64 (sint (shd (stl (mmio m)))) +
                  do_div ((clk * 1500) mod 2 ^ 64) NSEC_PER_SEC) mod 2 ^ 64 \<and>
          unat (shd (stl (mmio m))) < unat (imx_duty_cycle m))"
  shows "\<exists>es. trace (apply_write_sar clk cr pus pc dc m) = trace m @ es @
      [Writel MX3_PWMSAR (imx_duty_cycle m), Writel MX3_PWMSAR (of_nat dc), Local_irq_restore]"
  using assms by (auto simp add: apply_write_sar_def split_beta Let_def)


lemma margin_bound: "do_div ((clk * 1500) mod 2 ^ 64) NSEC_PER_SEC < 2 ^ 64 - 150"
proof -
  have "(clk * 1500) mod 2 ^ 64 < (2 :: nat) ^ 64"
    by simp
  then have "(clk * 1500) mod 2 ^ 64 div 1000000000 \<le> (2 :: nat) ^ 64 div 1000000000"
    by (intro div_le_mono) simp
  then show ?thesis
    by (simp add: do_div_def NSEC_PER_SEC_def)
qed

subsection \<open>Arithmetic of the conversions\<close>

lemma do_div_NSEC_PER_SEC: "do_div n NSEC_PER_SEC = n div 1000000000"
  by (simp add: do_div_def NSEC_PER_SEC_def)

lemma prescaled_fits: "(x :: nat) div (x div 65536 + 1) < 65536"
proof -
  have "x < 65536 * (x div 65536 + 1)"
    using dividend_less_times_div [of 65536 x] by simp
  then show ?thesis
    by (intro less_mult_imp_div_less) simp
qed

lemma prescaled_at_least_two:
  assumes "2 \<le> (x :: nat)"
  shows "2 \<le> x div (x div 65536 + 1)"
proof -
  define q where "q = x div 65536"
  have qx: "65536 * q \<le> x"
    by (simp add: q_def)
  have "2 * (q + 1) \<le> x"
  proof (cases "q = 0")
    case True
    then show ?thesis using assms by simp
  next
    case False
    then have "2 * (q + 1) \<le> 65536 * q"
      by simp
    then show ?thesis
      using qx by (rule order_trans)
  qed
  then have "2 * (q + 1) div (q + 1) \<le> x div (q + 1)"
    by (rule div_le_mono)
  moreover have "2 * (q + 1) div (q + 1) = 2"
    by (rule nonzero_mult_div_cancel_right) simp
  ultimately show ?thesis
    unfolding q_def by (simp only:)
qed

lemma to_ulong_id: "n < 2 ^ BITS_PER_LONG a \<Longrightarrow> to_ulong a n = n"
  by (simp add: to_ulong_def)

lemma to_ulong_le: "to_ulong a n \<le> n"
  by (simp add: to_ulong_def)

lemma DIV_ROUND_UP_ULL_ceiling:
  assumes "0 < d" and "d < 2 ^ 32" and "ll + d \<le> 2 ^ 64"
  shows "DIV_ROUND_UP_ULL ll d = (ll + d - 1) div d"
proof -
  have "ll + d - 1 < 2 ^ 64"
    using assms by linarith
  then show ?thesis
    using assms by (simp add: DIV_ROUND_UP_ULL_pos)
qed

lemma ceiling_div:
  fixes n d :: nat
  assumes "0 < d"
  shows "n \<le> (n + d - 1) div d * d" and "(n + d - 1) div d * d < n + d"
proof -
  have a: "(n + d - 1) div d * d + (n + d - 1) mod d = n + d - 1"
    by simp
  have b: "(n + d - 1) mod d < d"
    using assms by simp
  show "n \<le> (n + d - 1) div d * d"
    using a b assms by linarith
  show "(n + d - 1) div d * d < n + d"
    using a assms by linarith
qed

lemma ceiling_div_le:
  fixes n d t :: nat
  assumes "0 < d" and "n \<le> d * t"
  shows "(n + d - 1) div d \<le> t"
proof -
  have "(n + d - 1) div d * d < d * t + d"
    using ceiling_div(2) [OF assms(1), of n] assms(2) by linarith
  then have "(n + d - 1) div d * d < (t + 1) * d"
    by (simp add: algebra_simps)
  then have "(n + d - 1) div d < t + 1"
    by (simp only: mult_less_cancel2)
  then show ?thesis
    by simp
qed

lemma get_state_ns_roundtrip:
  assumes clk: "0 < clk" "clk < 2 ^ 32"
    and ps: "0 < prescale" "prescale \<le> 4096"
    and cyc: "cyc = clk * t div 1000000000 div prescale" "cyc < 65536"
  shows "get_state_ns clk cyc prescale \<le> t"
    and "t * clk < get_state_ns clk cyc prescale * clk + NSEC_PER_SEC * prescale"
    and "NSEC_PER_SEC * cyc * prescale \<le> get_state_ns clk cyc prescale * clk"
proof -
  define n where "n = 1000000000 * cyc * prescale"
  define q where "q = clk * t div 1000000000"
  have "cyc * prescale \<le> 65535 * 4096"
    using cyc(2) ps(2) by (intro mult_mono) simp_all
  then have n_small: "n \<le> 1000000000 * (65535 * 4096)"
    unfolding n_def by (simp only: mult.assoc mult_le_mono2)
  then have n64: "n < 2 ^ 64" and sum64: "n + clk \<le> 2 ^ 64"
    using clk(2) by simp_all
  have rb: "get_state_ns clk cyc prescale = (n + clk - 1) div clk"
    using clk n64 sum64
    by (simp add: get_state_ns_def NSEC_PER_SEC_def n_def [symmetric] DIV_ROUND_UP_ULL_ceiling)
  have "cyc * prescale \<le> q"
    unfolding cyc(1) q_def by simp
  then have "1000000000 * (cyc * prescale) \<le> 1000000000 * q"
    by (rule mult_le_mono2)
  also have "\<dots> \<le> clk * t"
    unfolding q_def by simp
  finally have n_le: "n \<le> clk * t"
    by (simp add: n_def mult.assoc)
  show "get_state_ns clk cyc prescale \<le> t"
    unfolding rb using clk(1) n_le by (rule ceiling_div_le)
  have up: "n \<le> get_state_ns clk cyc prescale * clk"
    unfolding rb using clk(1) by (rule ceiling_div(1))
  then show "NSEC_PER_SEC * cyc * prescale \<le> get_state_ns clk cyc prescale * clk"
    by (simp add: n_def NSEC_PER_SEC_def)
  have "q < prescale * (cyc + 1)"
    using dividend_less_times_div [of prescale q] ps(1) by (simp add: cyc(1) q_def)
  then have "q + 1 \<le> prescale * (cyc + 1)"
    by simp
  then have "1000000000 * (q + 1) \<le> 1000000000 * (prescale * (cyc + 1))"
    by (rule mult_le_mono2)
  moreover have "clk * t < 1000000000 * (q + 1)"
    using dividend_less_times_div [of 1000000000 "clk * t"] by (simp add: q_def)
  ultimately have "clk * t < 1000000000 * (prescale * (cyc + 1))"
    by linarith
  also have "\<dots> = n + 1000000000 * prescale"
    by (simp add: n_def algebra_simps)
  finally show "t * clk < get_state_ns clk cyc prescale * clk + NSEC_PER_SEC * prescale"
    using up by (simp add: NSEC_PER_SEC_def mult.commute)
qed

subsection \<open>The example inputs\<close>

lemma ex_convert: "apply_rate_convert LP64 66000000 ex_request = (1, 4998, 200)"
  by (simp add: apply_rate_convert_def ex_request_def do_div_def to_ulong_def NSEC_PER_SEC_def
      Let_def del: One_nat_def)

lemma ex_clk: "clk_get_rate ex_platform = 66000000" "long_abi ex_platform = LP64"
  "\<not> div_by_zero 66000000"
  by (simp_all add: clk_get_rate_def ex_platform_def to_ulong_def div_by_zero_def)

lemma ex_apply_ok: "fst (pwm_imx27_apply ex_platform ex_running ex_request ex_machine) = Inr ()"
  by (simp add: apply_success_iff ex_clk apply_prepare_cases ex_running_def)

lemma ex_cr: "apply_cr 1 ex_request = 0x03C20001"
  by (simp add: apply_cr_eq ex_request_def)

lemma ex_get_state_ns: "get_state_ns 66000000 1000 1 = 15152"
  by (simp add: get_state_ns_def DIV_ROUND_UP_ULL_def do_div_def NSEC_PER_SEC_def)

lemma ex_idle:
  "shd (mmio ex_idle_machine) = 0x03C20000" "imx_duty_cycle ex_idle_machine = 1000"
  "MX3_PWMCR_PRESCALER_GET 0x03C20000 = 1" "(0x03C20000 :: u32) AND MX3_PWMCR_EN = 0"
  by (simp_all add: ex_idle_machine_def MX3_PWMCR_PRESCALER_GET_def FIELD_GET_def MX3_values
      bf_shf_values)

lemma ex_prepare:
  "enabled pwm \<Longrightarrow> apply_prepare pf pwm ex_machine =
     (0, \<lparr>imx_duty_cycle = 1000, mmio = 4998 ## 0x03C20001 ## 0 ## 150 ## sconst 0,
          trace = [Readl MX3_PWMSR 0]\<rparr>)"
  by (simp add: apply_prepare_cases pwm_imx27_wait_fifo_slot_def ex_machine_def readl_def emit_def
      FIELD_GET_values MX3_PWMSR_FIFOAV_4WORDS_def)

lemma ex_reads:
  assumes "enabled pwm"
  shows "apply_pr_read pf pwm ex_machine = 4998" "apply_cr_read pf pwm ex_machine = 0x03C20001"
    "apply_sr_read pf pwm ex_machine = 0" "apply_cnr_read pf pwm ex_machine = 150"
  by (simp_all add: apply_pr_read_def apply_cr_read_def apply_sr_read_def apply_cnr_read_def
      ex_prepare [OF assms])

lemma ex_prescaler_get: "MX3_PWMCR_PRESCALER_GET 0x03C20001 = 1"
  by (simp add: MX3_PWMCR_PRESCALER_GET_def FIELD_GET_def MX3_values bf_shf_values)

lemma ex_period_us:
  "apply_period_us LP64 66000000 4998 0x03C20001 = 76"
  "apply_period_us LP64 24000000 4998 0x03C20001 = 209"
  unfolding apply_period_us_def Let_def ex_prescaler_get
  by (simp_all add: MX3_PWMPR_MAX_def int_to_u64_def NSEC_PER_SEC_def to_ulong_def
      DIV_ROUND_UP_ULL_def do_div_def)

lemma ex_margin:
  "do_div ((66000000 * 1500) mod 2 ^ 64) NSEC_PER_SEC = 99"
  "do_div ((24000000 * 1500) mod 2 ^ 64) NSEC_PER_SEC = 36"
  by (simp_all add: do_div_def NSEC_PER_SEC_def)

lemma ex_convert_up: "apply_rate_convert LP64 66000000 ex_request_up = (1, 4998, 1200)"
  by (simp add: apply_rate_convert_def ex_request_up_def do_div_def to_ulong_def NSEC_PER_SEC_def
      Let_def del: One_nat_def)

lemma ex_convert_24: "apply_rate_convert LP64 24000000 ex_request_24 = (1, 4998, 200)"
  by (simp add: apply_rate_convert_def ex_request_24_def do_div_def to_ulong_def NSEC_PER_SEC_def
      Let_def del: One_nat_def)

lemma ex_clk_24: "clk_get_rate ex_platform_24 = 24000000" "long_abi ex_platform_24 = LP64"
  "\<not> div_by_zero 24000000"
  by (simp_all add: clk_get_rate_def ex_platform_24_def to_ulong_def div_by_zero_def)

lemma ex_cr_24: "apply_cr 1 ex_request_24 = 0x03C20001"
  by (simp add: apply_cr_eq ex_request_24_def)

lemma apply_write_sar_no_guard:
  assumes "dc < unat (imx_duty_cycle m)" and "cr AND MX3_PWMCR_EN \<noteq> 0" and "\<not> pus < 2"
    and "FIELD_GET MX3_PWMSR_FIFOAV (shd (mmio m)) < MX3_PWMSR_FIFOAV_2WORDS"
    and "(int_to_u64 (sint (shd (stl (mmio m)))) +
            do_div ((clk * 1500) mod 2 ^ 64) NSEC_PER_SEC) mod 2 ^ 64 < dc"
    and "(int_to_u64 (sint (shd (stl (mmio m)))) +
            do_div ((clk * 1500) mod 2 ^ 64) NSEC_PER_SEC) mod 2 ^ 64 < pc"
  shows "trace (apply_write_sar clk cr pus pc dc m) = trace m @
      [Local_irq_save, Readl MX3_PWMSR (shd (mmio m)), Readl MX3_PWMCNR (shd (stl (mmio m))),
       Writel MX3_PWMSAR (of_nat dc), Local_irq_restore]"
  using assms by (simp add: apply_write_sar_def split_beta Let_def)

lemma ex_convert_more:
  "apply_rate_convert LP64 66000000 ex_full_duty = (2, 32998, 33000)"
  "apply_rate_convert LP64 66000000 ex_tiny = (1, 0, 0)"
  "apply_rate_convert LP64 66000000 ex_slow = (5036, 65526, 32764)"
  by (simp_all add: apply_rate_convert_def ex_full_duty_def ex_tiny_def ex_slow_def do_div_def
      to_ulong_def NSEC_PER_SEC_def Let_def del: One_nat_def)

lemma ex_readback:
  "readback_period LP64 66000000 ex_tiny = 31"
  "get_state_ns 66000000 1 1 = 16"
  "readback_period LP64 66000000 ex_slow = 933277576"
  "readback_period LP64 66000000 ex_request = 75758"
  "readback_duty LP64 66000000 ex_request = 3031"
  unfolding readback_period_def readback_duty_def ex_convert_more ex_convert apply_cr_prescaler
  by (simp_all add: get_state_ns_def DIV_ROUND_UP_ULL_def do_div_def NSEC_PER_SEC_def
      MX3_PWMPR_MAX_def Let_def del: One_nat_def)

lemma get_state_reads_back:
  assumes ret: "\<not> clk_enable_ret pf < 0"
    and nz: "\<not> div_by_zero (clk_get_rate pf mod 2 ^ 32)"
    and conv: "apply_rate_convert a (clk_get_rate pf) state = (prescale, pc, dc)"
    and cr: "shd (mmio m) = apply_cr prescale state"
    and pr: "shd (stl (mmio m)) = of_nat pc"
    and sar: "shd (stl (stl (mmio m))) = of_nat dc"
    and cache: "imx_duty_cycle m = of_nat dc"
  shows "\<exists>st'. fst (pwm_imx27_get_state pf st m) = Inr st' \<and>
      enabled st' = enabled state \<and>
      period st' = of_nat (readback_period a (clk_get_rate pf) state) \<and>
      duty_cycle st' = of_nat (readback_duty a (clk_get_rate pf) state)"
proof -
  have en: "(apply_cr prescale state AND MX3_PWMCR_EN \<noteq> 0) = enabled state"
    by (simp only: apply_cr_fixed_bits(7)) (simp add: MX3_values)
  show ?thesis
    using ret nz
    by (simp add: pwm_imx27_get_state_def split_beta Let_def cr pr sar cache en
        readback_period_def readback_duty_def conv)
qed

lemma erratum_guard_parts:
  assumes ok: "fst (pwm_imx27_apply pf pwm state m) = Inr ()"
    and dc: "dc = snd (snd (apply_rate_convert (long_abi pf) (clk_get_rate pf) state))"
  shows
    "(\<exists>g. sar_writes (writes (new_events m (snd (pwm_imx27_apply pf pwm state m)))) =
        replicate g (imx_duty_cycle m) @ [of_nat dc]) \<and>
     (\<not> (dc < unat (imx_duty_cycle m) \<and> apply_cr_read pf pwm m AND MX3_PWMCR_EN \<noteq> 0) \<longrightarrow>
        sar_writes (writes (new_events m (snd (pwm_imx27_apply pf pwm state m)))) = [of_nat dc]) \<and>
     (apply_cr_read pf pwm m AND MX3_PWMCR_EN \<noteq> 0 \<and> imx_duty_cycle m = 1000 \<and> dc = 200 \<and>
      apply_cnr_read pf pwm m = 150 \<and>
      (apply_period_us (long_abi pf) (clk_get_rate pf) (apply_pr_read pf pwm m)
         (apply_cr_read pf pwm m) < 2 \<or>
       FIELD_GET MX3_PWMSR_FIFOAV (apply_sr_read pf pwm m) < MX3_PWMSR_FIFOAV_2WORDS \<and>
       50 \<le> do_div ((clk_get_rate pf * 1500) mod 2 ^ 64) NSEC_PER_SEC) \<longrightarrow>
        (\<exists>ws. sar_writes (writes (new_events m (snd (pwm_imx27_apply pf pwm state m)))) =
           ws @ [1000, 200]))"
proof (intro conjI impI)
  obtain prescale pc where
    conv: "apply_rate_convert (long_abi pf) (clk_get_rate pf) state = (prescale, pc, dc)"
    using dc by (cases "apply_rate_convert (long_abi pf) (clk_get_rate pf) state") auto
  from apply_sar_writes [OF conv ok] obtain mid where mid:
    "sar_writes (writes (new_events m (snd (pwm_imx27_apply pf pwm state m)))) =
       sar_writes (writes mid) @ [of_nat dc]"
    "set mid \<subseteq> guard_events (imx_duty_cycle m)"
    "\<not> (dc < unat (imx_duty_cycle m) \<and> apply_cr_read pf pwm m AND MX3_PWMCR_EN \<noteq> 0) \<longrightarrow>
       mid = []"
    by blast
  from guard_sar_writes [OF mid(2)] mid(1)
  show "\<exists>g. sar_writes (writes (new_events m (snd (pwm_imx27_apply pf pwm state m)))) =
        replicate g (imx_duty_cycle m) @ [of_nat dc]"
    by auto
  {
    assume "\<not> (dc < unat (imx_duty_cycle m) \<and> apply_cr_read pf pwm m AND MX3_PWMCR_EN \<noteq> 0)"
    then show "sar_writes (writes (new_events m (snd (pwm_imx27_apply pf pwm state m)))) =
        [of_nat dc]"
      using mid(1,3) by simp
  }
  assume sc: "apply_cr_read pf pwm m AND MX3_PWMCR_EN \<noteq> 0 \<and> imx_duty_cycle m = 1000 \<and>
      dc = 200 \<and> apply_cnr_read pf pwm m = 150 \<and>
      (apply_period_us (long_abi pf) (clk_get_rate pf) (apply_pr_read pf pwm m)
         (apply_cr_read pf pwm m) < 2 \<or>
       FIELD_GET MX3_PWMSR_FIFOAV (apply_sr_read pf pwm m) < MX3_PWMSR_FIFOAV_2WORDS \<and>
       50 \<le> do_div ((clk_get_rate pf * 1500) mod 2 ^ 64) NSEC_PER_SEC)"
  define m1 where "m1 = snd (apply_prepare pf pwm m)"
  define m2 where "m2 = snd (readl MX3_PWMCR (snd (readl MX3_PWMPR m1)))"
  define c where "c = do_div ((clk_get_rate pf * 1500) mod 2 ^ 64) NSEC_PER_SEC"
  define pus where "pus = apply_period_us (long_abi pf) (clk_get_rate pf)
    (apply_pr_read pf pwm m) (apply_cr_read pf pwm m)"
  have m2: "imx_duty_cycle m2 = 1000" "shd (mmio m2) = apply_sr_read pf pwm m"
    "shd (stl (mmio m2)) = 150"
    "trace m2 = trace m1 @ [Readl MX3_PWMPR (shd (mmio m1)),
        Readl MX3_PWMCR (shd (stl (mmio m1)))]"
    using sc
    by (simp_all add: m2_def m1_def apply_prepare_duty apply_sr_read_def apply_cnr_read_def)
  have c: "(150 + c) mod 2 ^ 64 = 150 + c"
    using margin_bound [of "clk_get_rate pf"] by (simp add: c_def)
  have g: "pus < 2 \<or>
         (FIELD_GET MX3_PWMSR_FIFOAV (shd (mmio m2)) < MX3_PWMSR_FIFOAV_2WORDS \<and>
          200 \<le> (int_to_u64 (sint (shd (stl (mmio m2)))) + c) mod 2 ^ 64 \<and>
          unat (shd (stl (mmio m2))) < unat (imx_duty_cycle m2))"
  proof (cases "pus < 2")
    case True
    then show ?thesis by simp
  next
    case False
    with sc have f: "FIELD_GET MX3_PWMSR_FIFOAV (apply_sr_read pf pwm m) < MX3_PWMSR_FIFOAV_2WORDS"
      and c50: "50 \<le> c"
      by (simp_all add: pus_def c_def)
    have i: "int_to_u64 (sint (150 :: u32)) = 150"
      by (simp add: int_to_u64_def)
    have "200 \<le> 150 + c"
      using c50 by simp
    then have "200 \<le> (int_to_u64 (sint (shd (stl (mmio m2)))) + c) mod 2 ^ 64"
      by (simp only: m2(3) i c)
    moreover have "unat (shd (stl (mmio m2))) < unat (imx_duty_cycle m2)"
      by (simp add: m2)
    ultimately show ?thesis
      using f by (simp only: m2(2)) simp
  qed
  have lt: "200 < unat (imx_duty_cycle m2)"
    by (simp add: m2)
  from apply_write_sar_guard [of 200 m2 "apply_cr_read pf pwm m" pus "clk_get_rate pf" pc,
      OF lt _ g [unfolded c_def]] sc
  obtain es where es: "trace (apply_write_sar (clk_get_rate pf) (apply_cr_read pf pwm m) pus pc
      200 m2) = trace m2 @ es @
      [Writel MX3_PWMSAR (imx_duty_cycle m2), Writel MX3_PWMSAR (of_nat 200), Local_irq_restore]"
    by blast
  obtain pre where pre: "trace m1 = trace m @ pre"
    using apply_prepare_prefix [of pf pwm m] by (auto simp: m1_def)
  have "snd (pwm_imx27_apply pf pwm state m) =
      apply_commit prescale pc 200 state
        (apply_write_sar (clk_get_rate pf) (apply_cr_read pf pwm m) pus pc 200 m2)"
    using apply_result [OF conv ok] sc by (simp add: m2_def m1_def pus_def)
  then have "sar_writes (writes (new_events m (snd (pwm_imx27_apply pf pwm state m)))) =
      (sar_writes (writes pre) @ sar_writes (writes es)) @ [1000, 200]"
    using es by (simp add: apply_commit_trace m2 pre new_events_def)
  then show "\<exists>ws. sar_writes (writes (new_events m (snd (pwm_imx27_apply pf pwm state m)))) =
           ws @ [1000, 200]"
    by blast
qed


lemma apply_write_sar_exact:
  "sar_writes (writes (new_events m (apply_write_sar clk cr pus pc dc m))) =
     (if dc < unat (imx_duty_cycle m) \<and> cr AND MX3_PWMCR_EN \<noteq> 0 then
        if pus < 2 then [imx_duty_cycle m, imx_duty_cycle m]
        else if FIELD_GET MX3_PWMSR_FIFOAV (shd (mmio m)) < MX3_PWMSR_FIFOAV_2WORDS \<and>
                ((dc \<le> (int_to_u64 (sint (shd (stl (mmio m)))) +
                          do_div ((clk * 1500) mod 2 ^ 64) NSEC_PER_SEC) mod 2 ^ 64 \<and>
                  unat (shd (stl (mmio m))) < unat (imx_duty_cycle m)) \<or>
                 pc \<le> (int_to_u64 (sint (shd (stl (mmio m)))) +
                          do_div ((clk * 1500) mod 2 ^ 64) NSEC_PER_SEC) mod 2 ^ 64)
        then [imx_duty_cycle m]
        else []
      else []) @ [of_nat dc]"
  by (simp add: apply_write_sar_def split_beta Let_def new_events_def)

lemma apply_sar_writes_exact:
  assumes conv: "apply_rate_convert (long_abi pf) (clk_get_rate pf) state = (prescale, pc, dc)"
    and ok: "fst (pwm_imx27_apply pf pwm state m) = Inr ()"
    and m2: "m2 = snd (readl MX3_PWMCR (snd (readl MX3_PWMPR (snd (apply_prepare pf pwm m)))))"
    and pus: "pus = apply_period_us (long_abi pf) (clk_get_rate pf) (apply_pr_read pf pwm m)
      (apply_cr_read pf pwm m)"
  shows "sar_writes (writes (new_events m (snd (pwm_imx27_apply pf pwm state m)))) =
     sar_writes (writes (new_events m2
       (apply_write_sar (clk_get_rate pf) (apply_cr_read pf pwm m) pus pc dc m2)))"
proof -
  obtain pre where pre: "trace (snd (apply_prepare pf pwm m)) = trace m @ pre"
    "sar_writes (writes pre) = []"
    using apply_prepare_writes by blast
  have t2: "trace m2 = trace m @ pre @
      [Readl MX3_PWMPR (apply_pr_read pf pwm m), Readl MX3_PWMCR (apply_cr_read pf pwm m)]"
    by (simp add: m2 pre apply_pr_read_def apply_cr_read_def)
  obtain mid where mid:
    "trace (apply_write_sar (clk_get_rate pf) (apply_cr_read pf pwm m) pus pc dc m2) =
       trace m2 @ [Local_irq_save, Readl MX3_PWMSR (shd (mmio m2))] @ mid @
         [Writel MX3_PWMSAR (of_nat dc), Local_irq_restore]"
    using apply_write_sar_trace [of "clk_get_rate pf" "apply_cr_read pf pwm m" pus pc dc m2]
    by blast
  have "snd (pwm_imx27_apply pf pwm state m) =
      apply_commit prescale pc dc state
        (apply_write_sar (clk_get_rate pf) (apply_cr_read pf pwm m) pus pc dc m2)"
    using apply_result [OF conv ok] by (simp add: m2 pus)
  then have "trace (snd (pwm_imx27_apply pf pwm state m)) =
      trace m2 @ [Local_irq_save, Readl MX3_PWMSR (shd (mmio m2))] @ mid @
         [Writel MX3_PWMSAR (of_nat dc), Local_irq_restore] @
      [Writel MX3_PWMPR (of_nat pc), Writel MX3_PWMCR (apply_cr prescale state)] @
      (if enabled state then [] else [Clk_disable])"
    by (simp add: apply_commit_trace mid)
  then show ?thesis
    using mid pre(2) by (simp add: new_events_def t2)
qed


lemma erratum_scenario_exact:
  assumes ok: "fst (pwm_imx27_apply pf pwm state m) = Inr ()"
    and conv: "apply_rate_convert (long_abi pf) (clk_get_rate pf) state = (prescale, 4998, 200)"
    and en: "apply_cr_read pf pwm m AND MX3_PWMCR_EN \<noteq> 0"
    and old: "imx_duty_cycle m = 1000"
    and cnr: "apply_cnr_read pf pwm m = 150"
  shows "sar_writes (writes (new_events m (snd (pwm_imx27_apply pf pwm state m)))) =
     (if apply_period_us (long_abi pf) (clk_get_rate pf) (apply_pr_read pf pwm m)
           (apply_cr_read pf pwm m) < 2
      then [1000, 1000, 200]
      else if FIELD_GET MX3_PWMSR_FIFOAV (apply_sr_read pf pwm m) < MX3_PWMSR_FIFOAV_2WORDS \<and>
              50 \<le> do_div ((clk_get_rate pf * 1500) mod 2 ^ 64) NSEC_PER_SEC
      then [1000, 200]
      else [200])"
proof -
  define m2 where "m2 = snd (readl MX3_PWMCR (snd (readl MX3_PWMPR (snd (apply_prepare pf pwm m)))))"
  define pus where "pus = apply_period_us (long_abi pf) (clk_get_rate pf)
    (apply_pr_read pf pwm m) (apply_cr_read pf pwm m)"
  define c where "c = do_div ((clk_get_rate pf * 1500) mod 2 ^ 64) NSEC_PER_SEC"
  have m2: "imx_duty_cycle m2 = 1000" "shd (mmio m2) = apply_sr_read pf pwm m"
    "shd (stl (mmio m2)) = 150"
    using old cnr
    by (simp_all add: m2_def apply_prepare_duty apply_sr_read_def apply_cnr_read_def)
  have c: "(150 + c) mod 2 ^ 64 = 150 + c"
    using margin_bound [of "clk_get_rate pf"] by (simp add: c_def)
  have i: "int_to_u64 (sint (150 :: u32)) = 150"
    by (simp add: int_to_u64_def)
  have u: "unat (1000 :: u32) = 1000" "unat (150 :: u32) = 150" "(of_nat 200 :: u32) = 200"
    by simp_all
  have cond: "((200 \<le> 150 + c \<and> (150 :: nat) < 1000) \<or> 4998 \<le> 150 + c) = (50 \<le> c)"
    by auto
  have "sar_writes (writes (new_events m (snd (pwm_imx27_apply pf pwm state m)))) =
     sar_writes (writes (new_events m2
       (apply_write_sar (clk_get_rate pf) (apply_cr_read pf pwm m) pus 4998 200 m2)))"
    using conv ok m2_def pus_def by (rule apply_sar_writes_exact)
  also have "\<dots> = (if pus < 2 then [1000, 1000, 200]
      else if FIELD_GET MX3_PWMSR_FIFOAV (apply_sr_read pf pwm m) < MX3_PWMSR_FIFOAV_2WORDS \<and>
              50 \<le> c
      then [1000, 200] else [200])"
    unfolding apply_write_sar_exact m2 c_def [symmetric] i c u cond
    using en by simp
  finally show ?thesis
    unfolding pus_def c_def .
qed

section \<open>The software reset\<close>

text \<open>
  C8. The software reset starts by writing the control register with the value
  \<open>MX3_PWMCR_SWR\<close> and writes nothing else. In that value only the reset bit is set: the
  enable bit, the output polarity, the prescaler, the clock source and the stop, doze, wait
  and debug enables are all zero, whatever the register held before.
\<close>

theorem sw_reset_writes_only_reset_bit:
  "(\<exists>es. new_events m (pwm_imx27_sw_reset m) = Writel MX3_PWMCR MX3_PWMCR_SWR # es \<and>
      writes es = []) \<and>
   MX3_PWMCR_SWR = BIT 3 \<and>
   MX3_PWMCR_SWR AND MX3_PWMCR_EN = 0 \<and>
   FIELD_GET MX3_PWMCR_POUTC MX3_PWMCR_SWR = 0 \<and>
   FIELD_GET MX3_PWMCR_PRESCALER MX3_PWMCR_SWR = 0 \<and>
   FIELD_GET MX3_PWMCR_CLKSRC MX3_PWMCR_SWR = 0 \<and>
   MX3_PWMCR_SWR AND MX3_PWMCR_STOPEN = 0 \<and>
   MX3_PWMCR_SWR AND MX3_PWMCR_DOZEN = 0 \<and>
   MX3_PWMCR_SWR AND MX3_PWMCR_WAITEN = 0 \<and>
   MX3_PWMCR_SWR AND MX3_PWMCR_DBGEN = 0"
proof -
  obtain es where es: "trace (pwm_imx27_sw_reset m) = trace m @ Writel MX3_PWMCR MX3_PWMCR_SWR # es"
    "set es \<subseteq> reset_events"
    using sw_reset_frame [of m] by blast
  have "writes es = []"
    using es(2) by (intro writes_empty) (auto simp: reset_events_def)
  then have "\<exists>es. new_events m (pwm_imx27_sw_reset m) = Writel MX3_PWMCR MX3_PWMCR_SWR # es \<and>
      writes es = []"
    using es(1) by simp
  moreover have "MX3_PWMCR_SWR = BIT 3"
    by (simp add: MX3_PWMCR_SWR_def)
  ultimately show ?thesis
    by (simp add: FIELD_GET_values) (simp add: MX3_values)
qed

text \<open>
  C4. With a reset bit that never clears, the control register is polled six times, each
  poll after a sleep of 200 to 1000 microseconds, before the timeout warning: one poll
  more than \<open>MX3_PWM_SWR_LOOP\<close>. And when the bit is still set at the first five polls and
  clear at the sixth, there is no warning at all.
\<close>

theorem sw_reset_polls_six_times:
  "trace (pwm_imx27_sw_reset \<lparr>imx_duty_cycle = 0, mmio = sconst 8, trace = []\<rparr>) =
     [Writel MX3_PWMCR 8,
      Usleep_range 200 1000, Readl MX3_PWMCR 8, Usleep_range 200 1000, Readl MX3_PWMCR 8,
      Usleep_range 200 1000, Readl MX3_PWMCR 8, Usleep_range 200 1000, Readl MX3_PWMCR 8,
      Usleep_range 200 1000, Readl MX3_PWMCR 8, Usleep_range 200 1000, Readl MX3_PWMCR 8,
      Dev_warn ''software reset timeout''] \<and>
   trace (pwm_imx27_sw_reset
       \<lparr>imx_duty_cycle = 0, mmio = 8 ## 8 ## 8 ## 8 ## 8 ## sconst 0, trace = []\<rparr>) =
     [Writel MX3_PWMCR 8,
      Usleep_range 200 1000, Readl MX3_PWMCR 8, Usleep_range 200 1000, Readl MX3_PWMCR 8,
      Usleep_range 200 1000, Readl MX3_PWMCR 8, Usleep_range 200 1000, Readl MX3_PWMCR 8,
      Usleep_range 200 1000, Readl MX3_PWMCR 8, Usleep_range 200 1000, Readl MX3_PWMCR 0]"
  by (simp add: pwm_imx27_sw_reset_def sw_reset_poll.simps readl_def emit_def writel_def
      MX3_values MX3_PWM_SWR_LOOP_def)

section \<open>Applying a configuration\<close>

text \<open>
  C6. When the PWM is disabled and enabling the clocks fails, \<open>pwm_imx27_apply\<close> returns
  that error and has done nothing but the failed attempt: no register is read or written
  and the cached duty cycle is as before.
\<close>

theorem apply_clk_failure_no_side_effect:
  assumes "\<not> enabled pwm" and "clk_enable_ret pf \<noteq> 0"
  shows "pwm_imx27_apply pf pwm state m =
           (Inl (Errno (clk_enable_ret pf)), emit (Clk_enable (clk_enable_ret pf)) m) \<and>
         new_events m (snd (pwm_imx27_apply pf pwm state m)) = [Clk_enable (clk_enable_ret pf)] \<and>
         writes (trace (snd (pwm_imx27_apply pf pwm state m))) = writes (trace m) \<and>
         imx_duty_cycle (snd (pwm_imx27_apply pf pwm state m)) = imx_duty_cycle m \<and>
         mmio (snd (pwm_imx27_apply pf pwm state m)) = mmio m"
  using assms by (simp add: pwm_imx27_apply_def apply_prepare_def split_beta Let_def)

theorem apply_clk_failure_no_side_effect_witness:
  "\<not> enabled \<lparr>period = 0, duty_cycle = 0, polarity = PWM_POLARITY_NORMAL, enabled = False\<rparr> \<and>
   clk_enable_ret \<lparr>long_abi = ILP32, per_clk_rate = 66000000, clk_enable_ret = - 5\<rparr> \<noteq> 0 \<and>
   pwm_imx27_apply \<lparr>long_abi = ILP32, per_clk_rate = 66000000, clk_enable_ret = - 5\<rparr>
     \<lparr>period = 0, duty_cycle = 0, polarity = PWM_POLARITY_NORMAL, enabled = False\<rparr>
     \<lparr>period = 1000000, duty_cycle = 500000, polarity = PWM_POLARITY_NORMAL, enabled = True\<rparr>
     \<lparr>imx_duty_cycle = 7, mmio = sconst 0, trace = []\<rparr> =
   (Inl (Errno (- 5)), \<lparr>imx_duty_cycle = 7, mmio = sconst 0, trace = [Clk_enable (- 5)]\<rparr>)"
  using apply_clk_failure_no_side_effect
    [of "\<lparr>period = 0, duty_cycle = 0, polarity = PWM_POLARITY_NORMAL, enabled = False\<rparr>"
        "\<lparr>long_abi = ILP32, per_clk_rate = 66000000, clk_enable_ret = - 5\<rparr>"
        "\<lparr>period = 1000000, duty_cycle = 500000, polarity = PWM_POLARITY_NORMAL, enabled = True\<rparr>"
        "\<lparr>imx_duty_cycle = 7, mmio = sconst 0, trace = []\<rparr>"]
  by (simp add: emit_def)

text \<open>
  C9. The last register write of a successful \<open>pwm_imx27_apply\<close> is the control word. In
  it the stop, doze, wait and debug enable bits are set and the clock source is
  \<open>MX3_PWMCR_CLKSRC_IPG_HIGH\<close>, whatever was requested: outside the prescaler, polarity
  and enable fields the word is one constant.
\<close>

theorem apply_control_word:
  assumes "fst (pwm_imx27_apply pf pwm state m) = Inr ()"
    and "cr = apply_cr (fst (apply_rate_convert (long_abi pf) (clk_get_rate pf) state)) state"
  shows "(\<exists>es. new_events m (snd (pwm_imx27_apply pf pwm state m)) =
            es @ Writel MX3_PWMCR cr # (if enabled state then [] else [Clk_disable])) \<and>
         cr AND MX3_PWMCR_STOPEN = MX3_PWMCR_STOPEN \<and>
         cr AND MX3_PWMCR_DOZEN = MX3_PWMCR_DOZEN \<and>
         cr AND MX3_PWMCR_WAITEN = MX3_PWMCR_WAITEN \<and>
         cr AND MX3_PWMCR_DBGEN = MX3_PWMCR_DBGEN \<and>
         FIELD_GET MX3_PWMCR_CLKSRC cr = MX3_PWMCR_CLKSRC_IPG_HIGH \<and>
         cr AND NOT (MX3_PWMCR_PRESCALER OR MX3_PWMCR_POUTC OR MX3_PWMCR_EN) =
           MX3_PWMCR_STOPEN OR MX3_PWMCR_DOZEN OR MX3_PWMCR_WAITEN OR MX3_PWMCR_DBGEN OR
           FIELD_PREP MX3_PWMCR_CLKSRC MX3_PWMCR_CLKSRC_IPG_HIGH"
proof -
  obtain prescale pc dc where
    conv: "apply_rate_convert (long_abi pf) (clk_get_rate pf) state = (prescale, pc, dc)"
    by (cases "apply_rate_convert (long_abi pf) (clk_get_rate pf) state") auto
  have cr: "cr = apply_cr prescale state"
    using assms(2) conv by simp
  obtain pre where pre: "trace (snd (apply_prepare pf pwm m)) = trace m @ pre"
    using apply_prepare_prefix by blast
  from apply_trace [OF conv assms(1) refl] obtain mid where
    "trace (snd (pwm_imx27_apply pf pwm state m)) =
       trace (snd (apply_prepare pf pwm m)) @
       [Readl MX3_PWMPR (shd (mmio (snd (apply_prepare pf pwm m)))),
        Readl MX3_PWMCR (shd (stl (mmio (snd (apply_prepare pf pwm m))))),
        Local_irq_save, Readl MX3_PWMSR (shd (stl (stl (mmio (snd (apply_prepare pf pwm m))))))] @
       mid @
       [Writel MX3_PWMSAR (of_nat dc), Local_irq_restore,
        Writel MX3_PWMPR (of_nat pc), Writel MX3_PWMCR (apply_cr prescale state)] @
       (if enabled state then [] else [Clk_disable])"
    by blast
  then have "\<exists>es. new_events m (snd (pwm_imx27_apply pf pwm state m)) =
            es @ Writel MX3_PWMCR cr # (if enabled state then [] else [Clk_disable])"
    by (simp add: new_events_def pre cr)
  moreover have "cr AND NOT (MX3_PWMCR_PRESCALER OR MX3_PWMCR_POUTC OR MX3_PWMCR_EN) =
           MX3_PWMCR_STOPEN OR MX3_PWMCR_DOZEN OR MX3_PWMCR_WAITEN OR MX3_PWMCR_DBGEN OR
           FIELD_PREP MX3_PWMCR_CLKSRC MX3_PWMCR_CLKSRC_IPG_HIGH"
    unfolding cr apply_cr_fixed_bits(10) FIELD_PREP_values
    by (simp add: MX3_values MX3_PWMCR_CLKSRC_IPG_HIGH_def)
  ultimately show ?thesis
    by (simp add: cr apply_cr_fixed_bits apply_cr_fields)
qed


theorem apply_control_word_witness:
  "fst (pwm_imx27_apply ex_platform ex_running ex_request ex_machine) = Inr () \<and>
   (\<exists>es. new_events ex_machine (snd (pwm_imx27_apply ex_platform ex_running ex_request ex_machine)) =
      es @ [Writel MX3_PWMCR 0x03C20001]) \<and>
   0x03C20001 AND MX3_PWMCR_STOPEN = MX3_PWMCR_STOPEN \<and>
   FIELD_GET MX3_PWMCR_CLKSRC 0x03C20001 = MX3_PWMCR_CLKSRC_IPG_HIGH"
proof -
  have cr: "0x03C20001 = apply_cr (fst (apply_rate_convert (long_abi ex_platform)
      (clk_get_rate ex_platform) ex_request)) ex_request"
    by (simp add: ex_clk ex_convert ex_cr del: One_nat_def)
  have en: "enabled ex_request"
    by (simp add: ex_request_def)
  show ?thesis
    using apply_control_word [OF ex_apply_ok cr] ex_apply_ok en by simp
qed


text \<open>
  C10, as the claim states it, fails: with the PWM already enabled and a clock rate of
  zero, \<open>pwm_imx27_apply\<close> reads the period and the control register and then divides by
  the clock rate, which is undefined in C; it does not return success.
\<close>

theorem apply_enabled_counterexample:
  "enabled ex_running \<and> clk_get_rate ex_platform_zero = 0 \<and>
   fst (pwm_imx27_apply ex_platform_zero ex_running ex_request ex_machine) =
     Inl Division_by_zero \<and>
   fst (pwm_imx27_apply ex_platform_zero ex_running ex_request ex_machine) \<noteq> Inr ()"
proof -
  have en: "enabled ex_running"
    by (simp add: ex_running_def)
  have z: "clk_get_rate ex_platform_zero = 0"
    by (simp add: clk_get_rate_def ex_platform_zero_def to_ulong_def)
  have d: "div_by_zero (clk_get_rate ex_platform_zero)"
    by (simp add: z div_by_zero_def)
  have "fst (pwm_imx27_apply ex_platform_zero ex_running ex_request ex_machine) =
      Inl Division_by_zero"
    using apply_prepare_enabled_ret [OF en] d by (rule apply_div_by_zero(1))
  then show ?thesis
    using en z by simp
qed

text \<open>
  C10, amended. When the PWM is already enabled, \<open>pwm_imx27_apply\<close> never returns an error
  code and never touches the clocks' enable; it returns success for every input whose clock
  rate is not zero (as the 32-bit divisor of \<open>do_div\<close>).
\<close>

theorem apply_enabled_no_failure_path:
  assumes "enabled pwm"
  shows "(\<forall>e. fst (pwm_imx27_apply pf pwm state m) \<noteq> Inl (Errno e)) \<and>
         (\<forall>r. Clk_enable r \<notin> set (new_events m (snd (pwm_imx27_apply pf pwm state m)))) \<and>
         (\<not> div_by_zero (clk_get_rate pf) \<longrightarrow>
            fst (pwm_imx27_apply pf pwm state m) = Inr ())"
proof (cases "div_by_zero (clk_get_rate pf)")
  case True
  have ret: "fst (apply_prepare pf pwm m) = 0"
    using assms by (rule apply_prepare_enabled_ret)
  show ?thesis
    using True apply_div_by_zero [OF ret True, of state] apply_prepare_trace(1) [OF assms, of pf m]
    by (simp add: new_events_def)
next
  case False
  have ok: "fst (pwm_imx27_apply pf pwm state m) = Inr ()"
    using False assms by (simp add: apply_success_iff apply_prepare_enabled_ret)
  obtain prescale pc dc where
    conv: "apply_rate_convert (long_abi pf) (clk_get_rate pf) state = (prescale, pc, dc)"
    by (cases "apply_rate_convert (long_abi pf) (clk_get_rate pf) state") auto
  from apply_trace [OF conv ok refl] obtain mid where mid:
    "trace (snd (pwm_imx27_apply pf pwm state m)) =
       trace (snd (apply_prepare pf pwm m)) @
       [Readl MX3_PWMPR (shd (mmio (snd (apply_prepare pf pwm m)))),
        Readl MX3_PWMCR (shd (stl (mmio (snd (apply_prepare pf pwm m))))),
        Local_irq_save, Readl MX3_PWMSR (shd (stl (stl (mmio (snd (apply_prepare pf pwm m))))))] @
       mid @
       [Writel MX3_PWMSAR (of_nat dc), Local_irq_restore,
        Writel MX3_PWMPR (of_nat pc), Writel MX3_PWMCR (apply_cr prescale state)] @
       (if enabled state then [] else [Clk_disable])"
    "set mid \<subseteq> guard_events (imx_duty_cycle m)"
    by blast
  have "\<forall>r. Clk_enable r \<notin> set mid"
    using mid(2) by (auto simp: guard_events_def)
  then have "\<forall>r. Clk_enable r \<notin> set (new_events m (snd (pwm_imx27_apply pf pwm state m)))"
    using mid(1) apply_prepare_trace(1) [OF assms, of pf m] by (simp add: new_events_def)
  then show ?thesis
    using ok by simp
qed


theorem apply_enabled_no_failure_path_witness:
  "enabled ex_running \<and>
   fst (pwm_imx27_apply ex_platform ex_running ex_request ex_machine) = Inr () \<and>
   (\<forall>r. Clk_enable r \<notin>
      set (new_events ex_machine (snd (pwm_imx27_apply ex_platform ex_running ex_request ex_machine))))"
proof -
  have en: "enabled ex_running"
    by (simp add: ex_running_def)
  show ?thesis
    using apply_enabled_no_failure_path [OF en, of ex_platform ex_request ex_machine] en
    by (simp add: ex_clk)
qed




section \<open>The rate conversion\<close>

text \<open>
  C2, as the claim states it, fails: a request for a duty cycle of 100 percent (period and
  duty cycle of 1 ms on a 66 MHz clock) converts to 33000 duty cycles and, after the
  subtraction of 2, to 32998 period cycles, so the duty cycles exceed the period cycles.
\<close>

theorem rate_convert_counterexample:
  "unat (duty_cycle ex_full_duty) \<le> unat (period ex_full_duty) \<and>
   apply_rate_convert LP64 66000000 ex_full_duty = (2, 32998, 33000) \<and>
   \<not> (33000 :: nat) \<le> 32998"
  by (simp add: ex_convert_more) (simp add: ex_full_duty_def)


text \<open>
  C2, amended. For every input the conversion yields a prescaler of at least 1 and a value
  for the period register of at most 65533, which fits the 16-bit counter. When the duty
  cycle is at most the period, the product of clock rate and period does not overflow 64
  bits and the cycle count fits \<open>unsigned long\<close>, the duty cycles are at most the period
  cycles plus 2, that is, at most the period count before the two cycles are subtracted,
  and fit 16 bits.
\<close>

theorem rate_convert_bounds:
  assumes "apply_rate_convert a clk st = (prescale, pc, dc)"
  shows "1 \<le> prescale \<and> pc \<le> 65533 \<and>
    (unat (duty_cycle st) \<le> unat (period st) \<and> clk * unat (period st) < 2 ^ 64 \<and>
     clk * unat (period st) div NSEC_PER_SEC < 2 ^ BITS_PER_LONG a \<longrightarrow>
       dc \<le> pc + 2 \<and> dc < 65536)"
proof -
  define pc0 where "pc0 = to_ulong a ((clk * unat (period st)) mod 2 ^ 64 div 1000000000)"
  define dc0 where "dc0 = to_ulong a ((clk * unat (duty_cycle st)) mod 2 ^ 64 div 1000000000)"
  have e: "pc0 div 0x10000 + 1 = prescale \<and>
      (if 2 < pc0 div (pc0 div 0x10000 + 1) then pc0 div (pc0 div 0x10000 + 1) - 2 else 0) = pc \<and>
      dc0 div (pc0 div 0x10000 + 1) = dc"
    using assms
    unfolding apply_rate_convert_def Let_def do_div_NSEC_PER_SEC pc0_def dc0_def prod.inject .
  have ps: "prescale = pc0 div 65536 + 1"
    by (rule e [THEN conjunct1, symmetric])
  have pc: "pc = (if 2 < pc0 div prescale then pc0 div prescale - 2 else 0)"
    unfolding ps by (rule e [THEN conjunct2, THEN conjunct1, symmetric])
  have dc: "dc = dc0 div prescale"
    unfolding ps by (rule e [THEN conjunct2, THEN conjunct2, symmetric])
  have fits: "pc0 div prescale < 65536"
    unfolding ps by (rule prescaled_fits)
  have "1 \<le> prescale"
    by (simp add: ps)
  moreover have "pc \<le> 65533"
    using fits unfolding pc by (cases "2 < pc0 div prescale") simp_all
  moreover have "dc \<le> pc + 2 \<and> dc < 65536"
    if h: "unat (duty_cycle st) \<le> unat (period st)" "clk * unat (period st) < 2 ^ 64"
      "clk * unat (period st) div NSEC_PER_SEC < 2 ^ BITS_PER_LONG a"
  proof -
    have le: "clk * unat (duty_cycle st) \<le> clk * unat (period st)"
      using h(1) by simp
    then have d64: "clk * unat (duty_cycle st) < 2 ^ 64"
      using h(2) by linarith
    have p: "pc0 = clk * unat (period st) div 1000000000"
      using h(2,3) by (simp add: pc0_def to_ulong_id NSEC_PER_SEC_def)
    have "dc0 \<le> clk * unat (duty_cycle st) div 1000000000"
      using d64 to_ulong_le [of a "clk * unat (duty_cycle st) div 1000000000"]
      by (simp add: dc0_def)
    also have "\<dots> \<le> clk * unat (period st) div 1000000000"
      using le by (rule div_le_mono)
    finally have "dc0 \<le> pc0"
      by (simp add: p)
    then have "dc \<le> pc0 div prescale"
      unfolding dc by (rule div_le_mono)
    then show ?thesis
      using fits by (auto simp add: pc)
  qed
  ultimately show ?thesis
    by blast
qed


theorem rate_convert_bounds_witness:
  "apply_rate_convert LP64 66000000 ex_request = (1, 4998, 200) \<and>
   unat (duty_cycle ex_request) \<le> unat (period ex_request) \<and>
   66000000 * unat (period ex_request) < 2 ^ 64 \<and>
   66000000 * unat (period ex_request) div NSEC_PER_SEC < 2 ^ BITS_PER_LONG LP64 \<and>
   (200 :: nat) \<le> 4998 + 2"
  using rate_convert_bounds [OF ex_convert]
  by (simp add: ex_convert) (simp add: ex_request_def NSEC_PER_SEC_def)

section \<open>The round trip\<close>

text \<open>
  C3, as the claim states it, fails: a period of 10 ns on a 66 MHz clock is below one
  counter tick, the period register is clamped to 0, and the period read back is 31 ns
  (two ticks, rounded up). One tick is 16 ns rounded up, so the value read back is more
  than one rounding unit away from the request.
\<close>

theorem roundtrip_counterexample:
  "unat (duty_cycle ex_tiny) \<le> unat (period ex_tiny) \<and> unat (period ex_tiny) = 10 \<and>
   readback_period LP64 66000000 ex_tiny = 31 \<and> get_state_ns 66000000 1 1 = 16 \<and>
   \<not> (31 :: nat) \<le> 10 + 16"
  by (simp add: ex_readback del: One_nat_def) (simp add: ex_tiny_def)



text \<open>
  A second way the round trip fails: a period of five seconds needs a prescaler of 5036,
  which does not fit the 12-bit field; 940 is read back and with it a period of about 0.93
  seconds.
\<close>

lemma roundtrip_prescaler_overflow:
  "apply_rate_convert LP64 66000000 ex_slow = (5036, 65526, 32764) \<and>
   MX3_PWMCR_PRESCALER_GET (apply_cr 5036 ex_slow) = 940 \<and>
   readback_period LP64 66000000 ex_slow = 933277576"
  by (simp add: ex_convert_more ex_readback apply_cr_prescaler)

text \<open>
  C3, amended. For a clock rate that is not zero and below \<open>2^32\<close>, a duty cycle of at
  most the period, no overflow of clock rate times period in 64 bits nor of the cycle count
  in \<open>unsigned long\<close>, a prescaler of at most 4096 and a period of at least two counter
  ticks (a raw cycle count of at least 2; only the counts 0 and 1 are clamped to a longer
  period): the period and the duty cycle read back are at most the requested ones and less
  than one prescaled counter tick (\<open>NSEC_PER_SEC * prescale / clk\<close> nanoseconds) below
  them, and they are at least the exact duration of the programmed register values
  (rounding up).
\<close>

theorem roundtrip_within_one_tick:
  assumes conv: "apply_rate_convert a clk st = (prescale, pc, dc)"
    and clk: "0 < clk" "clk < 2 ^ 32"
    and no_ovf: "clk * unat (period st) < 2 ^ 64"
      "clk * unat (period st) div NSEC_PER_SEC < 2 ^ BITS_PER_LONG a"
    and dp: "unat (duty_cycle st) \<le> unat (period st)"
    and ps: "prescale \<le> 4096"
    and two: "2 \<le> clk * unat (period st) div NSEC_PER_SEC"
  shows "readback_period a clk st \<le> unat (period st) \<and>
         unat (period st) * clk < readback_period a clk st * clk + NSEC_PER_SEC * prescale \<and>
         readback_duty a clk st \<le> unat (duty_cycle st) \<and>
         unat (duty_cycle st) * clk < readback_duty a clk st * clk + NSEC_PER_SEC * prescale \<and>
         NSEC_PER_SEC * (pc + 2) * prescale \<le> readback_period a clk st * clk \<and>
         NSEC_PER_SEC * dc * prescale \<le> readback_duty a clk st * clk"
proof -
  define pc0 where "pc0 = to_ulong a ((clk * unat (period st)) mod 2 ^ 64 div 1000000000)"
  define dc0 where "dc0 = to_ulong a ((clk * unat (duty_cycle st)) mod 2 ^ 64 div 1000000000)"
  have e: "pc0 div 0x10000 + 1 = prescale \<and>
      (if 2 < pc0 div (pc0 div 0x10000 + 1) then pc0 div (pc0 div 0x10000 + 1) - 2 else 0) = pc \<and>
      dc0 div (pc0 div 0x10000 + 1) = dc"
    using conv
    unfolding apply_rate_convert_def Let_def do_div_NSEC_PER_SEC pc0_def dc0_def prod.inject .
  have ps_eq: "prescale = pc0 div 65536 + 1"
    by (rule e [THEN conjunct1, symmetric])
  have pc_eq: "pc = (if 2 < pc0 div prescale then pc0 div prescale - 2 else 0)"
    unfolding ps_eq by (rule e [THEN conjunct2, THEN conjunct1, symmetric])
  have dc_eq: "dc = dc0 div prescale"
    unfolding ps_eq by (rule e [THEN conjunct2, THEN conjunct2, symmetric])
  have fits: "pc0 div prescale < 65536"
    unfolding ps_eq by (rule prescaled_fits)
  have ps_pos: "0 < prescale"
    by (simp add: ps_eq)
  have p0: "pc0 = clk * unat (period st) div 1000000000"
    using no_ovf by (simp add: pc0_def to_ulong_id NSEC_PER_SEC_def)
  have "2 \<le> pc0"
    using two by (simp add: p0 NSEC_PER_SEC_def)
  then have "2 \<le> pc0 div prescale"
    unfolding ps_eq by (rule prescaled_at_least_two)
  then have pc2: "pc + 2 = pc0 div prescale"
    unfolding pc_eq by (cases "2 < pc0 div prescale") simp_all
  have le: "clk * unat (duty_cycle st) \<le> clk * unat (period st)"
    using dp by simp
  then have "clk * unat (duty_cycle st) div 1000000000 \<le> clk * unat (period st) div 1000000000"
    by (rule div_le_mono)
  then have "clk * unat (duty_cycle st) div 1000000000 < 2 ^ BITS_PER_LONG a"
    using no_ovf(2) by (simp add: NSEC_PER_SEC_def)
  moreover have "clk * unat (duty_cycle st) < 2 ^ 64"
    using le no_ovf(1) by linarith
  ultimately have d0: "dc0 = clk * unat (duty_cycle st) div 1000000000"
    by (simp add: dc0_def to_ulong_id)
  have "dc0 \<le> pc0"
    unfolding d0 p0 using le by (rule div_le_mono)
  then have "dc \<le> pc0 div prescale"
    unfolding dc_eq by (rule div_le_mono)
  then have dc_fits: "dc < 65536"
    using fits by linarith
  have get: "MX3_PWMCR_PRESCALER_GET (apply_cr prescale st) = prescale"
    using ps ps_pos by (simp add: apply_cr_prescaler)
  have clk32: "clk mod 2 ^ 32 = clk" "clk mod 4294967296 = clk"
    using clk(2) by simp_all
  have pc_small: "pc < 65534"
    using fits pc2 by linarith
  have val: "unat (of_nat pc :: u32) = pc"
    using pc_small by (simp add: unat_of_nat)
  have val2: "unat ((of_nat pc :: u32) + 2) = pc + 2"
    using pc_small by (simp add: unat_word_ariths(1) val)
  have rbp: "readback_period a clk st = get_state_ns clk (pc + 2) prescale"
    using pc_small
    by (simp add: readback_period_def conv Let_def val val2 get clk32 MX3_PWMPR_MAX_def)
  have dval: "unat (of_nat dc :: u32) = dc"
    using dc_fits by (simp add: unat_of_nat)
  have rbd: "readback_duty a clk st = get_state_ns clk dc prescale"
    by (simp add: readback_duty_def conv Let_def dval get clk32)
  have cp: "pc + 2 = clk * unat (period st) div 1000000000 div prescale"
    unfolding pc2 p0 ..
  have cd: "dc = clk * unat (duty_cycle st) div 1000000000 div prescale"
    unfolding dc_eq d0 ..
  have cp_fits: "pc + 2 < 65536"
    using fits unfolding pc2 .
  show ?thesis
    unfolding rbp rbd
    using get_state_ns_roundtrip [OF clk ps_pos ps cp cp_fits]
      get_state_ns_roundtrip [OF clk ps_pos ps cd dc_fits]
    by blast
qed


theorem roundtrip_within_one_tick_witness:
  "readback_period LP64 66000000 ex_request = 75758 \<and>
   readback_period LP64 66000000 ex_request \<le> unat (period ex_request) \<and>
   readback_duty LP64 66000000 ex_request = 3031 \<and>
   readback_duty LP64 66000000 ex_request \<le> unat (duty_cycle ex_request) \<and>
   NSEC_PER_SEC * (4998 + 2) * 1 \<le> readback_period LP64 66000000 ex_request * 66000000 \<and>
   apply_rate_convert LP64 66000000 ex_two_ticks = (1, 0, 1) \<and>
   readback_period LP64 66000000 ex_two_ticks = 31 \<and>
   readback_period LP64 66000000 ex_two_ticks \<le> unat (period ex_two_ticks) \<and>
   readback_duty LP64 66000000 ex_two_ticks = 16 \<and>
   readback_duty LP64 66000000 ex_two_ticks \<le> unat (duty_cycle ex_two_ticks)"
proof -
  have h: "(0 :: nat) < 66000000" "(66000000 :: nat) < 2 ^ 32"
    "66000000 * unat (period ex_request) < 2 ^ 64"
    "66000000 * unat (period ex_request) div NSEC_PER_SEC < 2 ^ BITS_PER_LONG LP64"
    "unat (duty_cycle ex_request) \<le> unat (period ex_request)"
    "(1 :: nat) \<le> 4096" "2 \<le> 66000000 * unat (period ex_request) div NSEC_PER_SEC"
    by (simp_all add: ex_request_def NSEC_PER_SEC_def)
  have h2: "(0 :: nat) < 66000000" "(66000000 :: nat) < 2 ^ 32"
    "66000000 * unat (period ex_two_ticks) < 2 ^ 64"
    "66000000 * unat (period ex_two_ticks) div NSEC_PER_SEC < 2 ^ BITS_PER_LONG LP64"
    "unat (duty_cycle ex_two_ticks) \<le> unat (period ex_two_ticks)"
    "(1 :: nat) \<le> 4096" "2 \<le> 66000000 * unat (period ex_two_ticks) div NSEC_PER_SEC"
    by (simp_all add: ex_two_ticks_def NSEC_PER_SEC_def)
  have c2: "apply_rate_convert LP64 66000000 ex_two_ticks = (1, 0, 1)"
    by (simp add: apply_rate_convert_def ex_two_ticks_def do_div_def to_ulong_def
        NSEC_PER_SEC_def Let_def del: One_nat_def)
  have rb2: "readback_period LP64 66000000 ex_two_ticks = 31"
    "readback_duty LP64 66000000 ex_two_ticks = 16"
    unfolding readback_period_def readback_duty_def c2 apply_cr_prescaler
    by (simp_all add: get_state_ns_def DIV_ROUND_UP_ULL_def do_div_def NSEC_PER_SEC_def
        MX3_PWMPR_MAX_def Let_def del: One_nat_def)
  show ?thesis
    using roundtrip_within_one_tick [OF ex_convert h] roundtrip_within_one_tick [OF c2 h2]
    by (simp add: ex_readback rb2 c2)
qed

section \<open>The erratum workaround\<close>

text \<open>
  C1, as the claim states it, fails: in its scenario (control register read with the enable
  bit set, cached duty cycle 1000 cycles, period 5000 cycles, new duty cycle 200 cycles,
  counter read as 150) on a 24 MHz clock, the margin of 1500 ns is 36 cycles, the counter
  plus the margin stays below the new duty cycle, and the new value is written to the
  sample register with no write of the old value before it.
\<close>

theorem erratum_guard_counterexample:
  "enabled ex_running_24 \<and> imx_duty_cycle ex_machine = 1000 \<and>
   apply_rate_convert (long_abi ex_platform_24) (clk_get_rate ex_platform_24) ex_request_24 =
     (1, 4998, 200) \<and>
   fst (pwm_imx27_apply ex_platform_24 ex_running_24 ex_request_24 ex_machine) = Inr () \<and>
   new_events ex_machine
     (snd (pwm_imx27_apply ex_platform_24 ex_running_24 ex_request_24 ex_machine)) =
     [Readl MX3_PWMSR 0, Readl MX3_PWMPR 4998, Readl MX3_PWMCR 0x03C20001,
      Local_irq_save, Readl MX3_PWMSR 0, Readl MX3_PWMCNR 150,
      Writel MX3_PWMSAR 200, Local_irq_restore,
      Writel MX3_PWMPR 4998, Writel MX3_PWMCR 0x03C20001]"
proof -
  have en: "enabled ex_running_24"
    by (simp add: ex_running_24_def)
  have ok: "fst (pwm_imx27_apply ex_platform_24 ex_running_24 ex_request_24 ex_machine) = Inr ()"
    using en by (simp add: apply_success_iff ex_clk_24 apply_prepare_enabled_ret)
  have conv: "apply_rate_convert (long_abi ex_platform_24) (clk_get_rate ex_platform_24)
      ex_request_24 = (1, 4998, 200)"
    by (simp add: ex_clk_24 ex_convert_24)
  define m2 where "m2 = snd (readl MX3_PWMCR (snd (readl MX3_PWMPR
    (snd (apply_prepare ex_platform_24 ex_running_24 ex_machine)))))"
  have m2: "imx_duty_cycle m2 = 1000" "shd (mmio m2) = 0" "shd (stl (mmio m2)) = 150"
    "trace m2 = [Readl MX3_PWMSR 0, Readl MX3_PWMPR 4998, Readl MX3_PWMCR 0x03C20001]"
    by (simp_all add: m2_def ex_prepare [OF en])
  have w: "trace (apply_write_sar 24000000 0x03C20001 209 4998 200 m2) = trace m2 @
      [Local_irq_save, Readl MX3_PWMSR (shd (mmio m2)), Readl MX3_PWMCNR (shd (stl (mmio m2))),
       Writel MX3_PWMSAR (of_nat 200), Local_irq_restore]"
  proof (rule apply_write_sar_no_guard)
    show "200 < unat (imx_duty_cycle m2)"
      by (simp add: m2)
    show "(0x03C20001 :: u32) AND MX3_PWMCR_EN \<noteq> 0"
      by (simp add: MX3_values)
    show "\<not> (209 :: nat) < 2"
      by simp
    show "FIELD_GET MX3_PWMSR_FIFOAV (shd (mmio m2)) < MX3_PWMSR_FIFOAV_2WORDS"
      by (simp add: m2 FIELD_GET_values MX3_PWMSR_FIFOAV_2WORDS_def)
    show "(int_to_u64 (sint (shd (stl (mmio m2)))) +
            do_div ((24000000 * 1500) mod 2 ^ 64) NSEC_PER_SEC) mod 2 ^ 64 < 200"
      unfolding ex_margin m2 by (simp add: int_to_u64_def)
    show "(int_to_u64 (sint (shd (stl (mmio m2)))) +
            do_div ((24000000 * 1500) mod 2 ^ 64) NSEC_PER_SEC) mod 2 ^ 64 < 4998"
      unfolding ex_margin m2 by (simp add: int_to_u64_def)
  qed
  have "snd (pwm_imx27_apply ex_platform_24 ex_running_24 ex_request_24 ex_machine) =
      apply_commit 1 4998 200 ex_request_24
        (apply_write_sar 24000000 0x03C20001 209 4998 200 m2)"
    using apply_result [OF conv ok]
    by (simp add: m2_def ex_reads [OF en] ex_clk_24 ex_period_us)
  then have "trace (snd (pwm_imx27_apply ex_platform_24 ex_running_24 ex_request_24 ex_machine)) =
     [Readl MX3_PWMSR 0, Readl MX3_PWMPR 4998, Readl MX3_PWMCR 0x03C20001,
      Local_irq_save, Readl MX3_PWMSR 0, Readl MX3_PWMCNR 150,
      Writel MX3_PWMSAR 200, Local_irq_restore,
      Writel MX3_PWMPR 4998, Writel MX3_PWMCR 0x03C20001]"
    by (simp add: apply_commit_trace w m2 ex_cr_24 del: One_nat_def)
      (simp add: ex_request_24_def)
  moreover have "trace ex_machine = []" "imx_duty_cycle ex_machine = 1000"
    by (simp_all add: ex_machine_def)
  ultimately show ?thesis
    using en ok conv by (simp add: new_events_def)
qed


text \<open>
  C1, amended. In a successful \<open>pwm_imx27_apply\<close> the writes to the sample register are
  some copies of the cached duty cycle followed by the new value. There is no copy of the
  cached value unless the new value is below the cached one and the control register read
  by \<open>pwm_imx27_apply\<close> has the enable bit set. In the scenario (enable bit set, cached duty
  cycle 1000, new duty cycle 200, counter read as 150) the cached value is written right
  before the new value, provided \<open>period_us\<close> is below 2, or the FIFO holds fewer than two
  words and the margin of 1500 ns is at least 50 cycles. Here \<open>period_us\<close> is the value
  \<open>pwm_imx27_apply\<close> computes from the period register and the prescaler it reads: the
  current period rounded up to whole nanoseconds and then to whole microseconds, in
  \<open>unsigned long\<close> arithmetic; without wrap-around it is below 2 for a period of at most
  1000 ns. With the new period register value 4998 (a period of 5000 cycles) these
  conditions are also necessary: the writes are the cached value twice and the new value
  when \<open>period_us\<close> is below 2, else the cached value once and the new value when the
  FIFO holds fewer than two words and the margin is at least 50 cycles, else the new value
  alone.
\<close>

theorem erratum_guard_condition:
  assumes ok: "fst (pwm_imx27_apply pf pwm state m) = Inr ()"
    and pc: "pc = fst (snd (apply_rate_convert (long_abi pf) (clk_get_rate pf) state))"
    and dc: "dc = snd (snd (apply_rate_convert (long_abi pf) (clk_get_rate pf) state))"
  shows
    "(\<exists>g. sar_writes (writes (new_events m (snd (pwm_imx27_apply pf pwm state m)))) =
        replicate g (imx_duty_cycle m) @ [of_nat dc]) \<and>
     (\<not> (dc < unat (imx_duty_cycle m) \<and> apply_cr_read pf pwm m AND MX3_PWMCR_EN \<noteq> 0) \<longrightarrow>
        sar_writes (writes (new_events m (snd (pwm_imx27_apply pf pwm state m)))) = [of_nat dc]) \<and>
     (apply_cr_read pf pwm m AND MX3_PWMCR_EN \<noteq> 0 \<and> imx_duty_cycle m = 1000 \<and> dc = 200 \<and>
      apply_cnr_read pf pwm m = 150 \<and>
      (apply_period_us (long_abi pf) (clk_get_rate pf) (apply_pr_read pf pwm m)
         (apply_cr_read pf pwm m) < 2 \<or>
       FIELD_GET MX3_PWMSR_FIFOAV (apply_sr_read pf pwm m) < MX3_PWMSR_FIFOAV_2WORDS \<and>
       50 \<le> do_div ((clk_get_rate pf * 1500) mod 2 ^ 64) NSEC_PER_SEC) \<longrightarrow>
        (\<exists>ws. sar_writes (writes (new_events m (snd (pwm_imx27_apply pf pwm state m)))) =
           ws @ [1000, 200])) \<and>
     (apply_cr_read pf pwm m AND MX3_PWMCR_EN \<noteq> 0 \<and> imx_duty_cycle m = 1000 \<and> dc = 200 \<and>
      pc = 4998 \<and> apply_cnr_read pf pwm m = 150 \<longrightarrow>
        sar_writes (writes (new_events m (snd (pwm_imx27_apply pf pwm state m)))) =
          (if apply_period_us (long_abi pf) (clk_get_rate pf) (apply_pr_read pf pwm m)
                (apply_cr_read pf pwm m) < 2
           then [1000, 1000, 200]
           else if FIELD_GET MX3_PWMSR_FIFOAV (apply_sr_read pf pwm m)
                     < MX3_PWMSR_FIFOAV_2WORDS \<and>
                   50 \<le> do_div ((clk_get_rate pf * 1500) mod 2 ^ 64) NSEC_PER_SEC
           then [1000, 200]
           else [200]))"
proof -
  note parts = erratum_guard_parts [OF ok dc]
  have exact: "apply_cr_read pf pwm m AND MX3_PWMCR_EN \<noteq> 0 \<and> imx_duty_cycle m = 1000 \<and>
      dc = 200 \<and> pc = 4998 \<and> apply_cnr_read pf pwm m = 150 \<longrightarrow>
        sar_writes (writes (new_events m (snd (pwm_imx27_apply pf pwm state m)))) =
          (if apply_period_us (long_abi pf) (clk_get_rate pf) (apply_pr_read pf pwm m)
                (apply_cr_read pf pwm m) < 2
           then [1000, 1000, 200]
           else if FIELD_GET MX3_PWMSR_FIFOAV (apply_sr_read pf pwm m)
                     < MX3_PWMSR_FIFOAV_2WORDS \<and>
                   50 \<le> do_div ((clk_get_rate pf * 1500) mod 2 ^ 64) NSEC_PER_SEC
           then [1000, 200]
           else [200])"
  proof
    assume sc: "apply_cr_read pf pwm m AND MX3_PWMCR_EN \<noteq> 0 \<and> imx_duty_cycle m = 1000 \<and>
      dc = 200 \<and> pc = 4998 \<and> apply_cnr_read pf pwm m = 150"
    obtain prescale where
      conv: "apply_rate_convert (long_abi pf) (clk_get_rate pf) state = (prescale, 4998, 200)"
      using pc dc sc by (cases "apply_rate_convert (long_abi pf) (clk_get_rate pf) state") auto
    from ok conv sc [THEN conjunct1] sc [THEN conjunct2, THEN conjunct1]
      sc [THEN conjunct2, THEN conjunct2, THEN conjunct2, THEN conjunct2]
    show "sar_writes (writes (new_events m (snd (pwm_imx27_apply pf pwm state m)))) =
          (if apply_period_us (long_abi pf) (clk_get_rate pf) (apply_pr_read pf pwm m)
                (apply_cr_read pf pwm m) < 2
           then [1000, 1000, 200]
           else if FIELD_GET MX3_PWMSR_FIFOAV (apply_sr_read pf pwm m)
                     < MX3_PWMSR_FIFOAV_2WORDS \<and>
                   50 \<le> do_div ((clk_get_rate pf * 1500) mod 2 ^ 64) NSEC_PER_SEC
           then [1000, 200]
           else [200])"
      by (rule erratum_scenario_exact)
  qed
  show ?thesis
    by (intro conjI)
      (rule parts [THEN conjunct1], rule parts [THEN conjunct2, THEN conjunct1],
       rule parts [THEN conjunct2, THEN conjunct2], rule exact)
qed

theorem erratum_guard_condition_witness:
  "(\<exists>ws. sar_writes (writes (new_events ex_machine
       (snd (pwm_imx27_apply ex_platform ex_running ex_request ex_machine)))) =
      ws @ [1000, 200]) \<and>
   sar_writes (writes (new_events ex_machine
       (snd (pwm_imx27_apply ex_platform ex_running ex_request ex_machine)))) = [1000, 200] \<and>
   sar_writes (writes (new_events ex_machine
       (snd (pwm_imx27_apply ex_platform ex_running ex_request_up ex_machine)))) = [1200]"
proof -
  have pc: "4998 = fst (snd (apply_rate_convert (long_abi ex_platform) (clk_get_rate ex_platform)
      ex_request))"
    by (simp add: ex_clk ex_convert)
  have pc_up: "4998 = fst (snd (apply_rate_convert (long_abi ex_platform)
      (clk_get_rate ex_platform) ex_request_up))"
    by (simp add: ex_clk ex_convert_up)
  have en: "enabled ex_running"
    by (simp add: ex_running_def)
  have ok_up: "fst (pwm_imx27_apply ex_platform ex_running ex_request_up ex_machine) = Inr ()"
    by (simp add: apply_success_iff ex_clk apply_prepare_cases ex_running_def)
  have dc: "200 = snd (snd (apply_rate_convert (long_abi ex_platform) (clk_get_rate ex_platform)
      ex_request))"
    by (simp add: ex_clk ex_convert)
  have dc_up: "1200 = snd (snd (apply_rate_convert (long_abi ex_platform)
      (clk_get_rate ex_platform) ex_request_up))"
    by (simp add: ex_clk ex_convert_up)
  have cached: "imx_duty_cycle ex_machine = 1000"
    by (simp add: ex_machine_def)
  have fifo: "FIELD_GET MX3_PWMSR_FIFOAV 0 < MX3_PWMSR_FIFOAV_2WORDS"
    by (simp add: FIELD_GET_values MX3_PWMSR_FIFOAV_2WORDS_def)
  have en_bit: "(0x03C20001 :: u32) AND MX3_PWMCR_EN \<noteq> 0"
    by (simp add: MX3_values)
  have "\<exists>ws. sar_writes (writes (new_events ex_machine
       (snd (pwm_imx27_apply ex_platform ex_running ex_request ex_machine)))) =
      ws @ [1000, 200]"
  proof -
    have margin: "50 \<le> do_div ((clk_get_rate ex_platform * 1500) mod 2 ^ 64) NSEC_PER_SEC"
      by (simp add: ex_clk do_div_def NSEC_PER_SEC_def)
    have "apply_cr_read ex_platform ex_running ex_machine AND MX3_PWMCR_EN \<noteq> 0 \<and>
        imx_duty_cycle ex_machine = 1000 \<and> (200 :: nat) = 200 \<and>
        apply_cnr_read ex_platform ex_running ex_machine = 150 \<and>
        (apply_period_us (long_abi ex_platform) (clk_get_rate ex_platform)
           (apply_pr_read ex_platform ex_running ex_machine)
           (apply_cr_read ex_platform ex_running ex_machine) < 2 \<or>
         FIELD_GET MX3_PWMSR_FIFOAV (apply_sr_read ex_platform ex_running ex_machine)
           < MX3_PWMSR_FIFOAV_2WORDS \<and>
         50 \<le> do_div ((clk_get_rate ex_platform * 1500) mod 2 ^ 64) NSEC_PER_SEC)"
      using cached fifo en_bit margin by (simp only: ex_reads [OF en]) simp
    then show ?thesis
      using erratum_guard_condition [OF ex_apply_ok pc dc] by blast
  qed
  moreover have "sar_writes (writes (new_events ex_machine
       (snd (pwm_imx27_apply ex_platform ex_running ex_request ex_machine)))) = [1000, 200]"
  proof -
    have sc: "apply_cr_read ex_platform ex_running ex_machine AND MX3_PWMCR_EN \<noteq> 0 \<and>
        imx_duty_cycle ex_machine = 1000 \<and> (200 :: nat) = 200 \<and> (4998 :: nat) = 4998 \<and>
        apply_cnr_read ex_platform ex_running ex_machine = 150"
      using cached en_bit by (simp only: ex_reads [OF en]) simp
    have margin: "50 \<le> do_div ((clk_get_rate ex_platform * 1500) mod 2 ^ 64) NSEC_PER_SEC"
      by (simp add: ex_clk do_div_def NSEC_PER_SEC_def)
    have pus: "\<not> apply_period_us (long_abi ex_platform) (clk_get_rate ex_platform)
        (apply_pr_read ex_platform ex_running ex_machine)
        (apply_cr_read ex_platform ex_running ex_machine) < 2"
      by (simp add: ex_reads [OF en] ex_clk ex_period_us)
    have ff: "FIELD_GET MX3_PWMSR_FIFOAV (apply_sr_read ex_platform ex_running ex_machine)
        < MX3_PWMSR_FIFOAV_2WORDS"
      using fifo by (simp only: ex_reads [OF en])
    from erratum_guard_condition [OF ex_apply_ok pc dc, THEN conjunct2, THEN conjunct2,
        THEN conjunct2, rule_format, OF sc]
    show ?thesis
      using pus ff margin by (simp only: if_False if_True simp_thms)
  qed
  moreover have "sar_writes (writes (new_events ex_machine
       (snd (pwm_imx27_apply ex_platform ex_running ex_request_up ex_machine)))) = [1200]"
    using erratum_guard_condition [OF ok_up pc_up dc_up] cached
    by simp
  ultimately show ?thesis
    by simp
qed

section \<open>The cached duty cycle\<close>

text \<open>
  C7. When the control register shows the PWM disabled, \<open>pwm_imx27_get_state\<close> computes the
  duty cycle from the cached value \<open>imx->duty_cycle\<close> and does not read the sample
  register. Every successful \<open>pwm_imx27_apply\<close> leaves in the cache the new duty cycle in
  counter units, which is also the last value it wrote to the sample register.
\<close>

theorem duty_cycle_cache:
  "(\<not> clk_enable_ret pf < 0 \<and> shd (mmio mg) AND MX3_PWMCR_EN = 0 \<and>
    \<not> div_by_zero (clk_get_rate pf mod 2 ^ 32) \<longrightarrow>
      (\<exists>st'. fst (pwm_imx27_get_state pf st mg) = Inr st' \<and> \<not> enabled st' \<and>
         duty_cycle st' = of_nat (get_state_ns (clk_get_rate pf mod 2 ^ 32)
           (unat (imx_duty_cycle mg)) (MX3_PWMCR_PRESCALER_GET (shd (mmio mg))))) \<and>
      (\<forall>v. Readl MX3_PWMSAR v \<notin> set (new_events mg (snd (pwm_imx27_get_state pf st mg))))) \<and>
   (fst (pwm_imx27_apply pf pwm state m) = Inr () \<longrightarrow>
      imx_duty_cycle (snd (pwm_imx27_apply pf pwm state m)) =
        of_nat (snd (snd (apply_rate_convert (long_abi pf) (clk_get_rate pf) state))) \<and>
      (\<exists>ws. sar_writes (writes (new_events m (snd (pwm_imx27_apply pf pwm state m)))) =
         ws @ [imx_duty_cycle (snd (pwm_imx27_apply pf pwm state m))]))"
proof (intro conjI impI)
  assume a: "\<not> clk_enable_ret pf < 0 \<and> shd (mmio mg) AND MX3_PWMCR_EN = 0 \<and>
    \<not> div_by_zero (clk_get_rate pf mod 2 ^ 32)"
  then show "\<exists>st'. fst (pwm_imx27_get_state pf st mg) = Inr st' \<and> \<not> enabled st' \<and>
         duty_cycle st' = of_nat (get_state_ns (clk_get_rate pf mod 2 ^ 32)
           (unat (imx_duty_cycle mg)) (MX3_PWMCR_PRESCALER_GET (shd (mmio mg))))"
    using get_state_disabled(1) [of pf mg st] by blast
  from a show "\<forall>v. Readl MX3_PWMSAR v \<notin> set (new_events mg (snd (pwm_imx27_get_state pf st mg)))"
    using get_state_disabled(2) [of pf mg st] by simp
next
  assume ok: "fst (pwm_imx27_apply pf pwm state m) = Inr ()"
  obtain prescale pc dc where
    conv: "apply_rate_convert (long_abi pf) (clk_get_rate pf) state = (prescale, pc, dc)"
    by (cases "apply_rate_convert (long_abi pf) (clk_get_rate pf) state") auto
  from apply_trace [OF conv ok refl]
  show c: "imx_duty_cycle (snd (pwm_imx27_apply pf pwm state m)) =
        of_nat (snd (snd (apply_rate_convert (long_abi pf) (clk_get_rate pf) state)))"
    by (simp add: conv)
  from apply_sar_writes [OF conv ok]
  show "\<exists>ws. sar_writes (writes (new_events m (snd (pwm_imx27_apply pf pwm state m)))) =
         ws @ [imx_duty_cycle (snd (pwm_imx27_apply pf pwm state m))]"
    unfolding c by (auto simp: conv)
qed


theorem duty_cycle_cache_witness:
  "(\<exists>st'. fst (pwm_imx27_get_state ex_platform ex_request ex_idle_machine) = Inr st' \<and>
      \<not> enabled st' \<and> duty_cycle st' = 15152) \<and>
   (\<forall>v. Readl MX3_PWMSAR v \<notin>
      set (new_events ex_idle_machine (snd (pwm_imx27_get_state ex_platform ex_request ex_idle_machine)))) \<and>
   fst (pwm_imx27_apply ex_platform ex_running ex_request ex_machine) = Inr () \<and>
   imx_duty_cycle (snd (pwm_imx27_apply ex_platform ex_running ex_request ex_machine)) = 200"
proof -
  have g: "\<not> clk_enable_ret ex_platform < 0 \<and> shd (mmio ex_idle_machine) AND MX3_PWMCR_EN = 0 \<and>
    \<not> div_by_zero (clk_get_rate ex_platform mod 2 ^ 32)"
    by (simp add: ex_idle ex_clk) (simp add: ex_platform_def div_by_zero_def)
  show ?thesis
    using duty_cycle_cache [of ex_platform ex_idle_machine ex_request ex_running
        ex_request ex_machine] g ex_apply_ok
    by (simp add: ex_idle ex_clk ex_convert ex_get_state_ns del: One_nat_def)
qed


end
